theory Spec2Isabelle
  imports Main "HOL-Library.Sublist"
begin

section \<open>The RSD/PLY/MAT exporter (\<^verbatim>\<open>io_export_rsd.py\<close>)\<close>

text \<open>
  The exporter's \<^verbatim>\<open>ExportRSD.execute\<close> writes three text files from one mesh.
  The model below follows the method statement by statement. A file is the string of
  everything written to it, \<^verbatim>\<open>f.write(s)\<close> appends \<open>s\<close> to that string, a
  \<^verbatim>\<open>for\<close> loop is a fold (or a recursion that stops at the first exception), and a
  Python exception is a value of type \<open>error\<close>.
\<close>

subsection \<open>Python values\<close>

datatype error = IndexError | NameError string

text \<open>
  Python floats are not HOL reals. The exporter only multiplies, negates, truncates and
  prints them, so these four operations and the literal \<^verbatim>\<open>255.0\<close> are parameters of the
  model: \<open>fmul\<close> is \<^verbatim>\<open>*\<close>, \<open>fneg\<close> is unary \<^verbatim>\<open>-\<close>, \<open>fint\<close> is \<^verbatim>\<open>int(x)\<close> (also what
  \<^verbatim>\<open>"%d" % x\<close> prints for a float \<open>x\<close>), \<open>fmtE\<close> is \<^verbatim>\<open>"%E" % x\<close>, and \<open>color_mul\<close>
  is the value of the source's variable of that name.
\<close>

record 'f float_ops =
  fmul :: "'f \<Rightarrow> 'f \<Rightarrow> 'f"
  fneg :: "'f \<Rightarrow> 'f"
  fint :: "'f \<Rightarrow> int"
  fmtE :: "'f \<Rightarrow> string"
  color_mul :: "'f"

text \<open>\<^verbatim>\<open>"%d" % n\<close> for an integer: decimal digits, with a minus sign when negative.\<close>

definition digit :: "nat \<Rightarrow> char" where
  "digit d = ''0123456789'' ! d"

fun show_nat :: "nat \<Rightarrow> string" where
  "show_nat n = (if n < 10 then [digit n] else show_nat (n div 10) @ [digit (n mod 10)])"

declare show_nat.simps [simp del]

definition show_int :: "int \<Rightarrow> string" where
  "show_int i = (if i < 0 then CHR ''-'' # show_nat (nat (- i)) else show_nat (nat i))"

text \<open>\<^verbatim>\<open>xs[i]\<close> for a non-negative index: IndexError when out of range.\<close>

definition index :: "'a list \<Rightarrow> nat \<Rightarrow> error + 'a" where
  "index xs i = (if i < length xs then Inr (xs ! i) else Inl IndexError)"

text \<open>\<^verbatim>\<open>s.rstrip(chars)\<close>: drop every trailing character that occurs in \<open>chars\<close>.\<close>

definition rstrip :: "string \<Rightarrow> string \<Rightarrow> string" where
  "rstrip s chars = rev (dropWhile (\<lambda>c. c \<in> set chars) (rev s))"

text \<open>\<^verbatim>\<open>s.lower()\<close> on ASCII text.\<close>

definition lower_char :: "char \<Rightarrow> char" where
  "lower_char c =
     (let n = (of_char c :: nat) in if 65 \<le> n \<and> n \<le> 90 then char_of (n + 32) else c)"

definition lower :: "string \<Rightarrow> string" where
  "lower s = map lower_char s"

subsection \<open>Blender's path helpers\<close>

text \<open>
  \<^verbatim>\<open>bpy.path.ensure_ext(filepath, ext)\<close> and \<^verbatim>\<open>bpy.path.basename(path)\<close> belong to
  Blender, not to the exporter. They are modelled from Blender's library source:
  \<^verbatim>\<open>ensure_ext\<close> (case-insensitive by default) returns \<^verbatim>\<open>filepath\<close> unchanged when
  \<^verbatim>\<open>filepath[-len(ext):].lower().endswith(ext.lower())\<close> and \<^verbatim>\<open>filepath + ext\<close>
  otherwise; \<^verbatim>\<open>basename\<close> is \<^verbatim>\<open>os.path.basename\<close> after a leading \<^verbatim>\<open>//\<close> is skipped,
  with \<^verbatim>\<open>/\<close> as the separator.
\<close>

definition endswith :: "string \<Rightarrow> string \<Rightarrow> bool" where
  "endswith s t = (length t \<le> length s \<and> drop (length s - length t) s = t)"

definition ensure_ext :: "string \<Rightarrow> string \<Rightarrow> string" where
  "ensure_ext filepath ext =
     (if endswith (lower (drop (length filepath - length ext) filepath)) (lower ext)
      then filepath else filepath @ ext)"

definition os_path_basename :: "string \<Rightarrow> string" where
  "os_path_basename p = rev (takeWhile (\<lambda>c. c \<noteq> CHR ''/'') (rev p))"

definition basename :: "string \<Rightarrow> string" where
  "basename path = os_path_basename (if take 2 path = ''//'' then drop 2 path else path)"

subsection \<open>The mesh handed over by Blender\<close>

datatype 'f vec = Vec (vx: 'f) (vy: 'f) (vz: 'f)

text \<open>A loop colour is the tuple \<^verbatim>\<open>color[:]\<close> of four floats.\<close>

datatype 'f rgba = RGBA (c0: 'f) (c1: 'f) (c2: 'f) (c3: 'f)

text \<open>A vertex \<^verbatim>\<open>v\<close> with \<^verbatim>\<open>v.co\<close> and \<^verbatim>\<open>v.normal\<close>.\<close>

record 'f vertex =
  co :: "'f vec"
  v_normal :: "'f vec"

text \<open>
  A face \<^verbatim>\<open>p\<close> of \<^verbatim>\<open>mesh.loop_triangles\<close> with \<^verbatim>\<open>p.vertices\<close>, \<^verbatim>\<open>p.loops\<close>,
  \<^verbatim>\<open>p.normal\<close> and \<^verbatim>\<open>p.use_smooth\<close>. Vertex and loop indices are unsigned in Blender.
  An element of \<^verbatim>\<open>mesh.loop_triangles\<close> has exactly three vertices and three loops. The
  exporter still branches on \<^verbatim>\<open>len(p.vertices)\<close> being 3, 4 or neither, so the lists are
  of any length here, and a property that depends on the number of loops says so.
\<close>

record 'f face =
  p_vertices :: "nat list"
  p_loops :: "nat list"
  p_normal :: "'f vec"
  use_smooth :: bool

text \<open>
  The mesh: \<^verbatim>\<open>mesh.vertices\<close>, \<^verbatim>\<open>mesh.loop_triangles\<close>, and the colour channel, which
  is \<open>None\<close> when \<^verbatim>\<open>mesh.vertex_colors\<close> is empty and otherwise the per-loop data
  \<^verbatim>\<open>mesh.vertex_colors.active.data\<close>.
\<close>

record 'f mesh =
  vertices :: "'f vertex list"
  loop_triangles :: "'f face list"
  vertex_colors :: "'f rgba list option"

text \<open>
  The operator's own fields that \<^verbatim>\<open>execute\<close> reads. \<^verbatim>\<open>exp_applyModifiers\<close> only
  selects which mesh Blender hands over, and the mesh is an argument here.
\<close>

record 'f operator =
  filepath :: string
  exp_coloredTexPolys :: bool
  exp_scaleFactor :: "'f"

definition filename_ext :: string where
  "filename_ext = ''.rsd''"

subsection \<open>Writing to a file\<close>

text \<open>
  A step of the code takes the text written so far and returns the text after it,
  together with the exception it raised, if any.
\<close>

type_synonym step = "string \<Rightarrow> string \<times> error option"

definition f_write :: "string \<Rightarrow> step" where
  "f_write s buf = (buf @ s, None)"

definition raise :: "error \<Rightarrow> step" where
  "raise e buf = (buf, Some e)"

definition seq :: "step \<Rightarrow> step \<Rightarrow> step" where
  "seq a b buf = (case a buf of (buf', Some e) \<Rightarrow> (buf', Some e) | (buf', None) \<Rightarrow> b buf')"

definition skip :: step where
  "skip buf = (buf, None)"

definition nl :: string where
  "nl = [CHR 0x0A]"

definition tab :: string where
  "tab = [CHR 0x09]"

subsection \<open>The geometry file\<close>

text \<open>\<^verbatim>\<open>"%E %E %E\n" % (a, b, c)\<close>.\<close>

definition fmt3E :: "'f float_ops \<Rightarrow> 'f \<Rightarrow> 'f \<Rightarrow> 'f \<Rightarrow> string" where
  "fmt3E ops a b c = fmtE ops a @ '' '' @ fmtE ops b @ '' '' @ fmtE ops c @ nl"

text \<open>The line of one vertex position (source line 102).\<close>

definition vertex_line :: "'f float_ops \<Rightarrow> 'f \<Rightarrow> 'f vertex \<Rightarrow> string" where
  "vertex_line ops scale v =
     fmt3E ops (fmul ops (vx (co v)) scale)
               (fmul ops (fneg ops (vz (co v))) scale)
               (fmul ops (vy (co v)) scale)"

text \<open>The line of one direction (source lines 108 and 113).\<close>

definition normal_line :: "'f float_ops \<Rightarrow> 'f vec \<Rightarrow> string" where
  "normal_line ops n = fmt3E ops (vx n) (fneg ops (vz n)) (vy n)"

text \<open>The vertex-index part of a face line (source lines 120 to 123).\<close>

definition face_vertex_indices :: "'f face \<Rightarrow> string" where
  "face_vertex_indices p =
     (let vs = p_vertices p in
      if length vs = 3 then
        ''0 '' @ show_nat (vs ! 0) @ '' '' @ show_nat (vs ! 2) @ '' '' @ show_nat (vs ! 1) @ '' 0 ''
      else if length vs = 4 then
        ''1 '' @ show_nat (vs ! 3) @ '' '' @ show_nat (vs ! 2) @ '' '' @ show_nat (vs ! 0)
          @ '' '' @ show_nat (vs ! 1) @ '' ''
      else [])"

text \<open>The normal-index part of a face line (source lines 126 to 136).\<close>

definition face_normal_indices :: "nat \<Rightarrow> nat \<Rightarrow> 'f face \<Rightarrow> string" where
  "face_normal_indices flatnorms_start i p =
     (let vs = p_vertices p in
      if use_smooth p then
        (if length vs = 3 then
           show_nat (vs ! 0) @ '' '' @ show_nat (vs ! 2) @ '' '' @ show_nat (vs ! 1) @ '' 0''
         else if length vs = 4 then
           show_nat (vs ! 3) @ '' '' @ show_nat (vs ! 2) @ '' '' @ show_nat (vs ! 0)
             @ '' '' @ show_nat (vs ! 1)
         else [])
      else
        (let n = flatnorms_start + i in
         if length vs = 3 then
           show_nat n @ '' '' @ show_nat n @ '' '' @ show_nat n @ '' 0''
         else if length vs = 4 then
           show_nat n @ '' '' @ show_nat n @ '' '' @ show_nat n @ '' '' @ show_nat n
         else []))"

text \<open>One pass of the polygon loop (source lines 117 to 138).\<close>

definition ply_face :: "nat \<Rightarrow> nat \<times> 'f face \<Rightarrow> string \<Rightarrow> string" where
  "ply_face flatnorms_start ip buf =
     (case ip of (i, p) \<Rightarrow>
        buf @ face_vertex_indices p @ face_normal_indices flatnorms_start i p @ nl)"

text \<open>The counts line (source line 97).\<close>

definition ply_counts :: "'f mesh \<Rightarrow> string" where
  "ply_counts mesh =
     show_nat (length (vertices mesh)) @ '' ''
       @ show_nat (length (vertices mesh) + length (loop_triangles mesh)) @ '' ''
       @ show_nat (length (loop_triangles mesh)) @ nl"

text \<open>The whole geometry file (source lines 94 to 138).\<close>

definition write_ply :: "'f float_ops \<Rightarrow> 'f \<Rightarrow> 'f mesh \<Rightarrow> string" where
  "write_ply ops scale mesh =
     (let f = ''@PLY940102'' @ nl;
          f = f @ ply_counts mesh;
          f = f @ ''# Vertices'' @ nl;
          f = fold (\<lambda>v buf. buf @ vertex_line ops scale v) (vertices mesh) f;
          f = f @ ''# Normals'' @ nl;
          f = f @ ''# Smooth normals begin here'' @ nl;
          f = fold (\<lambda>v buf. buf @ normal_line ops (v_normal v)) (vertices mesh) f;
          f = f @ ''# Flat normals begin here'' @ nl;
          flatnorms_start = length (vertices mesh);
          f = fold (\<lambda>p buf. buf @ normal_line ops (p_normal p)) (loop_triangles mesh) f;
          f = f @ ''# Polygon'' @ nl;
          f = fold (ply_face flatnorms_start) (enumerate 0 (loop_triangles mesh)) f
      in f)"

subsection \<open>The shading file\<close>

text \<open>
  The list comprehension of source line 168:
  \<^verbatim>\<open>[mesh_cols[loop_index].color[:] for loop_index in p.loops]\<close>.
\<close>

fun index_all :: "'a list \<Rightarrow> nat list \<Rightarrow> error + 'a list" where
  "index_all xs [] = Inr []"
| "index_all xs (l # ls) =
     (case index xs l of
        Inl e \<Rightarrow> Inl e
      | Inr c \<Rightarrow> (case index_all xs ls of Inl e \<Rightarrow> Inl e | Inr cs \<Rightarrow> Inr (c # cs)))"

text \<open>
  The test of source line 170,
  \<^verbatim>\<open>(col[0] == col[1]) and (col[1] == col[2]) and (col[2] == col[0])\<close>,
  with Python's left-to-right, short-circuit evaluation; the result is the value given to
  \<^verbatim>\<open>pol_gouraud\<close>, the negation of the test. Two colour tuples are compared by HOL
  equality of their four channels, which is Python's \<^verbatim>\<open>==\<close> on floats other than NaN
  and zeros of different sign.
\<close>

definition check_gouraud :: "'f rgba list \<Rightarrow> error + bool" where
  "check_gouraud col =
     (case index col 0 of
        Inl e \<Rightarrow> Inl e
      | Inr a \<Rightarrow>
          (case index col 1 of
             Inl e \<Rightarrow> Inl e
           | Inr b \<Rightarrow>
               (if a \<noteq> b then Inr True
                else (case index col 2 of
                        Inl e \<Rightarrow> Inl e
                      | Inr c \<Rightarrow> Inr (\<not> (b = c \<and> c = a))))))"

text \<open>
  Source lines 167 to 177: the pair of \<^verbatim>\<open>col\<close> and \<^verbatim>\<open>pol_gouraud\<close>. Without a colour
  channel \<^verbatim>\<open>col\<close> is never assigned and never read; it is the empty list here.
\<close>

definition classify :: "'f rgba list option \<Rightarrow> 'f face \<Rightarrow> error + ('f rgba list \<times> bool)" where
  "classify mesh_cols p =
     (case mesh_cols of
        None \<Rightarrow> Inr ([], False)
      | Some cols \<Rightarrow>
          (case index_all cols (p_loops p) of
             Inl e \<Rightarrow> Inl e
           | Inr col \<Rightarrow>
               (case check_gouraud col of Inl e \<Rightarrow> Inl e | Inr g \<Rightarrow> Inr (col, g))))"

text \<open>Source line 164: \<^verbatim>\<open>pol_textured = False\<close>, the only assignment to it.\<close>

definition pol_textured :: bool where
  "pol_textured = False"

text \<open>
  Source lines 180 to 211, with the flag as an argument. The names \<^verbatim>\<open>tex_table\<close> and
  \<^verbatim>\<open>mesh_uvs\<close> are bound nowhere in the file, so the textured branch writes its tag and
  then raises NameError at \<^verbatim>\<open>tex_table[i]\<close>.
\<close>

definition texture_step :: "bool \<Rightarrow> bool \<Rightarrow> bool \<Rightarrow> step" where
  "texture_step textured coloredTexPolys pol_gouraud =
     (if textured then
        seq (f_write (if coloredTexPolys then (if pol_gouraud then ''H '' else ''D '') else ''T ''))
            (raise (NameError ''tex_table''))
      else f_write (if pol_gouraud then ''G '' else ''C ''))"

text \<open>
  \<^verbatim>\<open>"%d %d %d " % (int(color[0]*color_mul), int(color[1]*color_mul), int(color[2]*color_mul))\<close>.
\<close>

definition triplet :: "'f float_ops \<Rightarrow> 'f rgba \<Rightarrow> string" where
  "triplet ops color =
     show_int (fint ops (fmul ops (c0 color) (color_mul ops))) @ '' ''
       @ show_int (fint ops (fmul ops (c1 color) (color_mul ops))) @ '' ''
       @ show_int (fint ops (fmul ops (c2 color) (color_mul ops))) @ '' ''"

text \<open>
  The loop of source lines 221 to 224, \<^verbatim>\<open>for j,c in enumerate(p.vertices)\<close>, from
  position \<open>j\<close> on.
\<close>

fun write_cols :: "'f float_ops \<Rightarrow> nat list \<Rightarrow> 'f rgba list \<Rightarrow> nat \<Rightarrow> nat list \<Rightarrow> step" where
  "write_cols ops index_tab col j [] = skip"
| "write_cols ops index_tab col j (c # cs) =
     (case index index_tab j of
        Inl e \<Rightarrow> raise e
      | Inr k \<Rightarrow>
          (case index col k of
             Inl e \<Rightarrow> raise e
           | Inr color \<Rightarrow>
               seq (f_write (triplet ops color)) (write_cols ops index_tab col (Suc j) cs)))"

text \<open>Source lines 214 to 236, with the texture flag as an argument.\<close>

definition color_step ::
  "'f float_ops \<Rightarrow> bool \<Rightarrow> bool \<Rightarrow> 'f rgba list option \<Rightarrow> 'f rgba list \<Rightarrow> bool \<Rightarrow> 'f face \<Rightarrow> step"
where
  "color_step ops textured coloredTexPolys mesh_cols col pol_gouraud p =
     (case mesh_cols of
        Some cols \<Rightarrow>
          (if coloredTexPolys \<or> \<not> textured then
             (if pol_gouraud then
                (let index_tab = (if length (p_vertices p) = 4 then [3, 2, 0, 1] else [0, 2, 1])
                 in seq (write_cols ops index_tab col 0 (p_vertices p))
                        (if length (p_vertices p) = 3 then f_write ''0 0 0'' else skip))
              else
                (case index col 0 of
                   Inl e \<Rightarrow> raise e
                 | Inr color \<Rightarrow> f_write (triplet ops color)))
           else skip)
      | None \<Rightarrow>
          f_write (show_int (fint ops (color_mul ops)) @ '' ''
                     @ show_int (fint ops (color_mul ops)) @ '' ''
                     @ show_int (fint ops (color_mul ops)) @ '' ''))"

text \<open>One pass of the loop of source lines 152 to 238, with the texture flag as an argument.\<close>

definition mat_face_with ::
  "bool \<Rightarrow> 'f float_ops \<Rightarrow> bool \<Rightarrow> 'f rgba list option \<Rightarrow> nat \<times> 'f face \<Rightarrow> step"
where
  "mat_face_with textured ops coloredTexPolys mesh_cols ip =
     (case ip of (i, p) \<Rightarrow>
        seq (f_write (show_nat i @ tab @ '' 0 ''))
       (seq (f_write (if use_smooth p then ''G '' else ''F ''))
            (\<lambda>buf. case classify mesh_cols p of
                      Inl e \<Rightarrow> raise e buf
                    | Inr (col, pol_gouraud) \<Rightarrow>
                        seq (texture_step textured coloredTexPolys pol_gouraud)
                       (seq (color_step ops textured coloredTexPolys mesh_cols col pol_gouraud p)
                            (f_write nl)) buf)))"

text \<open>The loop body as the source has it: the flag is the constant of line 164.\<close>

definition mat_face :: "'f float_ops \<Rightarrow> bool \<Rightarrow> 'f rgba list option \<Rightarrow> nat \<times> 'f face \<Rightarrow> step" where
  "mat_face = mat_face_with pol_textured"

text \<open>A \<^verbatim>\<open>for\<close> loop whose body may raise: the first exception ends it.\<close>

fun for_each :: "('a \<Rightarrow> step) \<Rightarrow> 'a list \<Rightarrow> step" where
  "for_each body [] = skip"
| "for_each body (x # xs) = seq (body x) (for_each body xs)"

text \<open>
  The whole shading file (source lines 141 to 238): the text written, and the exception
  that ended the writing, if any.
\<close>

definition write_mat :: "'f float_ops \<Rightarrow> bool \<Rightarrow> 'f mesh \<Rightarrow> string \<times> error option" where
  "write_mat ops coloredTexPolys mesh =
     seq (f_write (''@MAT940801'' @ nl))
    (seq (f_write (show_nat (length (loop_triangles mesh)) @ nl))
         (for_each (mat_face ops coloredTexPolys (vertex_colors mesh))
                   (enumerate 0 (loop_triangles mesh)))) []"

subsection \<open>The descriptor file and the whole export\<close>

text \<open>Source lines 242 to 245.\<close>

definition write_rsd :: "string \<Rightarrow> string \<Rightarrow> string" where
  "write_rsd ply_filepath mat_filepath =
     ''@RSD940102'' @ nl
       @ ''PLY='' @ basename ply_filepath @ nl
       @ ''MAT='' @ basename mat_filepath @ nl
       @ ''NTEX=0'' @ nl"

text \<open>Source lines 74 to 78: the three paths.\<close>

definition stripped :: "string \<Rightarrow> string" where
  "stripped fp = rstrip fp filename_ext"

definition rsd_filepath :: "string \<Rightarrow> string" where
  "rsd_filepath fp = ensure_ext (stripped fp) filename_ext"

definition ply_filepath :: "string \<Rightarrow> string" where
  "ply_filepath fp = ensure_ext (stripped fp) ''.ply''"

definition mat_filepath :: "string \<Rightarrow> string" where
  "mat_filepath fp = ensure_ext (stripped fp) ''.mat''"

text \<open>
  The outcome of \<^verbatim>\<open>execute\<close>: the files written, as pairs of path and content in the
  order of their creation, and the exception that ended the run, if any. An exception in
  the shading loop leaves the geometry file and the part of the shading file written so
  far, and no descriptor file.
\<close>

record outcome =
  files :: "(string \<times> string) list"
  raised :: "error option"

definition execute :: "'f float_ops \<Rightarrow> 'f operator \<Rightarrow> 'f mesh \<Rightarrow> outcome" where
  "execute ops self mesh =
     (let ply = (ply_filepath (filepath self), write_ply ops (exp_scaleFactor self) mesh);
          (mat_text, exn) = write_mat ops (exp_coloredTexPolys self) mesh;
          mat = (mat_filepath (filepath self), mat_text)
      in case exn of
           Some e \<Rightarrow> \<lparr>files = [ply, mat], raised = Some e\<rparr>
         | None \<Rightarrow>
             \<lparr>files = [ply, mat,
                       (rsd_filepath (filepath self),
                        write_rsd (ply_filepath (filepath self)) (mat_filepath (filepath self)))],
              raised = None\<rparr>)"

text \<open>
  Exact removal of the suffix \<^verbatim>\<open>.rsd\<close>, as the specification's design note asks for it;
  it is what the character stripping of source line 75 is compared with.
\<close>

definition remove_suffix :: "string \<Rightarrow> string \<Rightarrow> string" where
  "remove_suffix s ext = (if endswith s ext then take (length s - length ext) s else s)"

subsection \<open>Views of the output used to state the properties\<close>

text \<open>The line that one pass of the polygon loop appends for face \<open>p\<close> at position \<open>i\<close>.\<close>

definition face_line :: "nat \<Rightarrow> nat \<Rightarrow> 'f face \<Rightarrow> string" where
  "face_line flatnorms_start i p =
     face_vertex_indices p @ face_normal_indices flatnorms_start i p @ nl"

text \<open>The lines of the face block, in the order written.\<close>

definition face_block :: "nat \<Rightarrow> 'f face list \<Rightarrow> string list" where
  "face_block flatnorms_start ps =
     map (\<lambda>(i, p). face_line flatnorms_start i p) (enumerate 0 ps)"

text \<open>The rows of the two sections of the normal block, in the order written.\<close>

definition smooth_rows :: "'f float_ops \<Rightarrow> 'f mesh \<Rightarrow> string list" where
  "smooth_rows ops mesh = map (\<lambda>v. normal_line ops (v_normal v)) (vertices mesh)"

definition flat_rows :: "'f float_ops \<Rightarrow> 'f mesh \<Rightarrow> string list" where
  "flat_rows ops mesh = map (\<lambda>p. normal_line ops (p_normal p)) (loop_triangles mesh)"

text \<open>
  A stand-in for the float operations on which the model can be run on concrete meshes:
  floats that hold integers, where multiplication, negation and truncation are exact.
  Its \<open>fmtE\<close> prints the plain decimal integer, not the digits of Python's \<^verbatim>\<open>%E\<close>.
\<close>

definition int_ops :: "int float_ops" where
  "int_ops = \<lparr>fmul = (*), fneg = uminus, fint = id, fmtE = show_int, color_mul = 255\<rparr>"

subsection \<open>Concrete inputs\<close>

text \<open>
  Four corners of a tilted rectangle, with a flat quad, a smooth triangle and a face of
  five vertices, which the exporter has no branch for. The directions are integer
  vectors, not unit vectors.
\<close>

definition quad_face :: "int face" where
  "quad_face =
     \<lparr>p_vertices = [0, 1, 2, 3], p_loops = [0, 1, 2, 3], p_normal = Vec 0 (- 3) 2,
      use_smooth = False\<rparr>"

definition tri_face :: "int face" where
  "tri_face =
     \<lparr>p_vertices = [0, 2, 3], p_loops = [4, 5, 6], p_normal = Vec 0 (- 3) 2,
      use_smooth = True\<rparr>"

definition bad_face :: "int face" where
  "bad_face =
     \<lparr>p_vertices = [0, 1, 2, 3, 0], p_loops = [0, 1, 2, 3, 4], p_normal = Vec 0 (- 3) 2,
      use_smooth = True\<rparr>"

definition corners :: "int vertex list" where
  "corners =
     [\<lparr>co = Vec 0 0 0, v_normal = Vec 0 (- 3) 2\<rparr>, \<lparr>co = Vec 1 0 0, v_normal = Vec 0 (- 3) 2\<rparr>,
      \<lparr>co = Vec 1 2 3, v_normal = Vec 0 (- 3) 2\<rparr>, \<lparr>co = Vec 0 2 3, v_normal = Vec 0 (- 3) 2\<rparr>]"

definition plain_mesh :: "int mesh" where
  "plain_mesh =
     \<lparr>vertices = corners, loop_triangles = [quad_face, tri_face, bad_face],
      vertex_colors = None\<rparr>"

text \<open>
  A colour channel for seven loops: red, green and blue for loops 0 to 2, white for loops
  3 to 6. With it \<open>quad_face\<close> has loop colours that differ and \<open>tri_face\<close> has three
  equal ones; \<open>rgb_tri\<close> is a triangle whose loop colours differ, and \<open>odd_quad\<close> is a
  quad whose first three loop colours are white and whose fourth is red.
\<close>

definition red :: "int rgba" where
  "red = RGBA 1 0 0 1"

definition green :: "int rgba" where
  "green = RGBA 0 1 0 1"

definition blue :: "int rgba" where
  "blue = RGBA 0 0 1 1"

definition white :: "int rgba" where
  "white = RGBA 1 1 1 1"

definition loop_colors :: "int rgba list" where
  "loop_colors = [red, green, blue, white, white, white, white]"

definition rgb_tri :: "int face" where
  "rgb_tri =
     \<lparr>p_vertices = [0, 1, 2], p_loops = [0, 1, 2], p_normal = Vec 0 (- 3) 2,
      use_smooth = False\<rparr>"

definition odd_quad :: "int face" where
  "odd_quad =
     \<lparr>p_vertices = [0, 1, 2, 3], p_loops = [4, 5, 6, 0], p_normal = Vec 0 (- 3) 2,
      use_smooth = False\<rparr>"

definition colored_mesh :: "int mesh" where
  "colored_mesh =
     \<lparr>vertices = corners, loop_triangles = [quad_face, tri_face, rgb_tri, odd_quad],
      vertex_colors = Some loop_colors\<rparr>"

text \<open>An export to \<^verbatim>\<open>/tmp/model.rsd\<close> with coloured textured polygons switched on.\<close>

definition model_export :: "int operator" where
  "model_export =
     \<lparr>filepath = ''/tmp/model.rsd'', exp_coloredTexPolys = True, exp_scaleFactor = 2\<rparr>"

text \<open>An export to \<^verbatim>\<open>/tmp/food.rsd\<close>, a name whose stem ends in a letter of the extension.\<close>

definition food_export :: "int operator" where
  "food_export =
     \<lparr>filepath = ''/tmp/food.rsd'', exp_coloredTexPolys = False, exp_scaleFactor = 1\<rparr>"


section \<open>Properties of the geometry file\<close>

lemma fold_append_conv: "fold (\<lambda>x buf. buf @ g x) xs buf = buf @ concat (map g xs)"
  by (induction xs arbitrary: buf) simp_all

lemma fold_ply_face:
  "fold (ply_face n) ips buf = buf @ concat (map (\<lambda>(i, p). face_line n i p) ips)"
  by (induction ips arbitrary: buf) (simp_all add: ply_face_def face_line_def split: prod.splits)

lemma write_ply_eq:
  "write_ply ops scale mesh =
     ''@PLY940102'' @ nl @ ply_counts mesh
       @ ''# Vertices'' @ nl
       @ concat (map (vertex_line ops scale) (vertices mesh))
       @ ''# Normals'' @ nl
       @ ''# Smooth normals begin here'' @ nl
       @ concat (smooth_rows ops mesh)
       @ ''# Flat normals begin here'' @ nl
       @ concat (flat_rows ops mesh)
       @ ''# Polygon'' @ nl
       @ concat (face_block (length (vertices mesh)) (loop_triangles mesh))"
  by (simp add: write_ply_def Let_def fold_append_conv fold_ply_face face_block_def
      smooth_rows_def flat_rows_def)

lemma face_block_nth:
  "k < length ps \<Longrightarrow> face_block n ps ! k = face_line n k (ps ! k)"
  by (simp add: face_block_def nth_enumerate_eq)

lemma length_face_block: "length (face_block n ps) = length ps"
  by (simp add: face_block_def)

lemma face_line_other:
  "length (p_vertices p) \<noteq> 3 \<Longrightarrow> length (p_vertices p) \<noteq> 4 \<Longrightarrow> face_line n i p = nl"
  by (simp add: face_line_def face_vertex_indices_def face_normal_indices_def Let_def)

lemma face_line_tri:
  "length (p_vertices p) = 3 \<Longrightarrow>
   face_line n i p =
     ''0 '' @ show_nat (p_vertices p ! 0) @ '' '' @ show_nat (p_vertices p ! 2) @ '' ''
       @ show_nat (p_vertices p ! 1) @ '' 0 ''
       @ (if use_smooth p
          then show_nat (p_vertices p ! 0) @ '' '' @ show_nat (p_vertices p ! 2) @ '' ''
                 @ show_nat (p_vertices p ! 1) @ '' 0''
          else show_nat (n + i) @ '' '' @ show_nat (n + i) @ '' '' @ show_nat (n + i) @ '' 0'')
       @ nl"
  by (simp add: face_line_def face_vertex_indices_def face_normal_indices_def Let_def)

lemma face_line_quad:
  "length (p_vertices p) = 4 \<Longrightarrow>
   face_line n i p =
     ''1 '' @ show_nat (p_vertices p ! 3) @ '' '' @ show_nat (p_vertices p ! 2) @ '' ''
       @ show_nat (p_vertices p ! 0) @ '' '' @ show_nat (p_vertices p ! 1) @ '' ''
       @ (if use_smooth p
          then show_nat (p_vertices p ! 3) @ '' '' @ show_nat (p_vertices p ! 2) @ '' ''
                 @ show_nat (p_vertices p ! 0) @ '' '' @ show_nat (p_vertices p ! 1)
          else show_nat (n + i) @ '' '' @ show_nat (n + i) @ '' '' @ show_nat (n + i)
                 @ '' '' @ show_nat (n + i))
       @ nl"
  by (simp add: face_line_def face_vertex_indices_def face_normal_indices_def Let_def)

lemma concat_split_at:
  "k < length xs \<Longrightarrow> concat xs = concat (take k xs) @ xs ! k @ concat (drop (Suc k) xs)"
proof -
  assume "k < length xs"
  then have "xs = take k xs @ (xs ! k) # drop (Suc k) xs"
    by (simp add: id_take_nth_drop)
  then have "concat xs = concat (take k xs @ (xs ! k) # drop (Suc k) xs)"
    by simp
  then show ?thesis by simp
qed

text \<open>
  Claim C2. A face whose vertex count is neither 3 nor 4 gets no vertex-index and no
  normal-index values in the face block: its line is the bare line break. The counts
  line of the header is still made of the number of vertices, the number of vertices plus
  the number of all faces, and the number of all faces, the skipped one included.
\<close>

theorem malformed_face_skipped_but_counted:
  assumes "k < length (loop_triangles mesh)"
    and "length (p_vertices (loop_triangles mesh ! k)) \<noteq> 3"
    and "length (p_vertices (loop_triangles mesh ! k)) \<noteq> 4"
  shows "face_block (length (vertices mesh)) (loop_triangles mesh) ! k = nl \<and>
         (\<exists>before.
           write_ply ops scale mesh =
             ''@PLY940102'' @ nl
               @ show_nat (length (vertices mesh)) @ '' ''
               @ show_nat (length (vertices mesh) + length (loop_triangles mesh)) @ '' ''
               @ show_nat (length (loop_triangles mesh)) @ nl
               @ before
               @ concat (take k (face_block (length (vertices mesh)) (loop_triangles mesh)))
               @ nl
               @ concat (drop (Suc k) (face_block (length (vertices mesh)) (loop_triangles mesh))))"
proof
  let ?fb = "face_block (length (vertices mesh)) (loop_triangles mesh)"
  show line: "?fb ! k = nl"
    using assms by (simp add: face_block_nth face_line_other)
  have "k < length ?fb"
    using assms(1) by (simp add: length_face_block)
  then have "concat ?fb = concat (take k ?fb) @ nl @ concat (drop (Suc k) ?fb)"
    using concat_split_at [of k ?fb] line by simp
  then have whole: "write_ply ops scale mesh =
             ''@PLY940102'' @ nl
               @ show_nat (length (vertices mesh)) @ '' ''
               @ show_nat (length (vertices mesh) + length (loop_triangles mesh)) @ '' ''
               @ show_nat (length (loop_triangles mesh)) @ nl
               @ (''# Vertices'' @ nl
                   @ concat (map (vertex_line ops scale) (vertices mesh))
                   @ ''# Normals'' @ nl
                   @ ''# Smooth normals begin here'' @ nl
                   @ concat (smooth_rows ops mesh)
                   @ ''# Flat normals begin here'' @ nl
                   @ concat (flat_rows ops mesh)
                   @ ''# Polygon'' @ nl)
               @ concat (take k ?fb)
               @ nl
               @ concat (drop (Suc k) ?fb)"
    by (simp add: write_ply_eq ply_counts_def)
  show "\<exists>before.
           write_ply ops scale mesh =
             ''@PLY940102'' @ nl
               @ show_nat (length (vertices mesh)) @ '' ''
               @ show_nat (length (vertices mesh) + length (loop_triangles mesh)) @ '' ''
               @ show_nat (length (loop_triangles mesh)) @ nl
               @ before
               @ concat (take k ?fb)
               @ nl
               @ concat (drop (Suc k) ?fb)"
    by (rule exI, rule whole)
qed

theorem malformed_face_skipped_but_counted_witness:
  "face_block 4 (loop_triangles plain_mesh) ! 2 = nl \<and>
   (\<exists>before.
      write_ply int_ops 1 plain_mesh =
        ''@PLY940102'' @ nl @ ''4 7 3'' @ nl
          @ before
          @ (''1 3 2 0 1 4 4 4 4'' @ nl @ ''0 0 3 2 0 0 3 2 0'' @ nl)
          @ nl)"
proof -
  have k: "2 < length (loop_triangles plain_mesh)"
    by (simp add: plain_mesh_def)
  have n3: "length (p_vertices (loop_triangles plain_mesh ! 2)) \<noteq> 3"
    by (simp add: plain_mesh_def bad_face_def)
  have n4: "length (p_vertices (loop_triangles plain_mesh ! 2)) \<noteq> 4"
    by (simp add: plain_mesh_def bad_face_def)
  have len: "length (vertices plain_mesh) = 4" "length (loop_triangles plain_mesh) = 3"
    by (simp_all add: plain_mesh_def corners_def)
  have fb: "concat (take 2 (face_block 4 (loop_triangles plain_mesh)))
            = ''1 3 2 0 1 4 4 4 4'' @ nl @ ''0 0 3 2 0 0 3 2 0'' @ nl"
           "concat (drop (Suc 2) (face_block 4 (loop_triangles plain_mesh))) = []"
    by code_simp+
  have sn: "show_nat 4 = ''4''" "show_nat (4 + 3) = ''7''" "show_nat 3 = ''3''"
    by code_simp+
  show ?thesis
    using malformed_face_skipped_but_counted [OF k n3 n4, of int_ops 1, unfolded len fb sn]
    by simp
qed

text \<open>
  Claim C3. The line of a face with three vertices is the prefix \<open>0\<close>, the vertex indices
  in the order 0, 2, 1 and a pad \<open>0\<close>; the line of a face with four vertices is the prefix
  \<open>1\<close> and the vertex indices in the order 3, 2, 0, 1. The normal indices that follow are
  the same reordered vertex indices when the face is smooth (with the pad \<open>0\<close> for a
  triangle), and otherwise the number of vertices plus the position of the face, three
  times and the pad \<open>0\<close> for a triangle, four times for a quad. These lines are the end of
  the geometry file, after the line \<^verbatim>\<open># Polygon\<close>.
\<close>

theorem face_line_layout:
  assumes "k < length (loop_triangles mesh)"
  shows "(let p = loop_triangles mesh ! k;
              vs = p_vertices p;
              n = length (vertices mesh) + k;
              line = face_block (length (vertices mesh)) (loop_triangles mesh) ! k
          in (length vs = 3 \<longrightarrow>
                line = ''0 '' @ show_nat (vs ! 0) @ '' '' @ show_nat (vs ! 2) @ '' ''
                         @ show_nat (vs ! 1) @ '' 0 ''
                         @ (if use_smooth p
                            then show_nat (vs ! 0) @ '' '' @ show_nat (vs ! 2) @ '' ''
                                   @ show_nat (vs ! 1) @ '' 0''
                            else show_nat n @ '' '' @ show_nat n @ '' '' @ show_nat n @ '' 0'')
                         @ nl)
           \<and> (length vs = 4 \<longrightarrow>
                line = ''1 '' @ show_nat (vs ! 3) @ '' '' @ show_nat (vs ! 2) @ '' ''
                         @ show_nat (vs ! 0) @ '' '' @ show_nat (vs ! 1) @ '' ''
                         @ (if use_smooth p
                            then show_nat (vs ! 3) @ '' '' @ show_nat (vs ! 2) @ '' ''
                                   @ show_nat (vs ! 0) @ '' '' @ show_nat (vs ! 1)
                            else show_nat n @ '' '' @ show_nat n @ '' '' @ show_nat n
                                   @ '' '' @ show_nat n)
                         @ nl))
         \<and> (\<exists>before. write_ply ops scale mesh
                = before @ ''# Polygon'' @ nl
                    @ concat (face_block (length (vertices mesh)) (loop_triangles mesh)))"
proof -
  have line: "face_block (length (vertices mesh)) (loop_triangles mesh) ! k
      = face_line (length (vertices mesh)) k (loop_triangles mesh ! k)"
    using assms by (rule face_block_nth)
  have whole: "write_ply ops scale mesh =
      (''@PLY940102'' @ nl @ ply_counts mesh
       @ ''# Vertices'' @ nl
       @ concat (map (vertex_line ops scale) (vertices mesh))
       @ ''# Normals'' @ nl
       @ ''# Smooth normals begin here'' @ nl
       @ concat (smooth_rows ops mesh)
       @ ''# Flat normals begin here'' @ nl
       @ concat (flat_rows ops mesh))
       @ ''# Polygon'' @ nl
       @ concat (face_block (length (vertices mesh)) (loop_triangles mesh))"
    by (simp add: write_ply_eq)
  have ex: "\<exists>before. write_ply ops scale mesh
                = before @ ''# Polygon'' @ nl
                    @ concat (face_block (length (vertices mesh)) (loop_triangles mesh))"
    by (rule exI, rule whole)
  show ?thesis
    unfolding Let_def line
    by (intro conjI impI face_line_tri face_line_quad ex)
qed

theorem face_line_layout_witness:
  "face_block 4 (loop_triangles plain_mesh) ! 0 = ''1 3 2 0 1 4 4 4 4'' @ nl \<and>
   face_block 4 (loop_triangles plain_mesh) ! 1 = ''0 0 3 2 0 0 3 2 0'' @ nl"
proof -
  have k0: "0 < length (loop_triangles plain_mesh)" and k1: "1 < length (loop_triangles plain_mesh)"
    by (simp_all add: plain_mesh_def)
  have len: "length (vertices plain_mesh) = 4"
    by (simp add: plain_mesh_def corners_def)
  have sn: "show_nat 0 = ''0''" "show_nat 1 = ''1''" "show_nat 2 = ''2''" "show_nat 3 = ''3''"
    "show_nat 4 = ''4''" "show_nat (Suc 0) = ''1''"
    by code_simp+
  have q: "face_block 4 (loop_triangles plain_mesh) ! 0 = ''1 3 2 0 1 4 4 4 4'' @ nl"
    using face_line_layout [OF k0, of int_ops 1, unfolded len]
    by (simp add: plain_mesh_def quad_face_def Let_def sn)
  have t: "face_block 4 (loop_triangles plain_mesh) ! 1 = ''0 0 3 2 0 0 3 2 0'' @ nl"
    using face_line_layout [OF k1, of int_ops 1, unfolded len]
    by (simp add: plain_mesh_def tri_face_def Let_def sn)
  show ?thesis using q t by simp
qed

section \<open>Properties of the shading file\<close>

text \<open>Every step only appends to the text written so far.\<close>

lemma seq_f_write: "seq (f_write s) b buf = b (buf @ s)"
  by (simp add: seq_def f_write_def)

lemma prefix_f_write: "prefix buf (fst (f_write s buf))"
  by (simp add: f_write_def)

lemma prefix_raise: "prefix buf (fst (raise e buf))"
  by (simp add: raise_def)

lemma prefix_skip: "prefix buf (fst (skip buf))"
  by (simp add: skip_def)

lemma prefix_seq:
  assumes "\<And>b. prefix b (fst (f b))" and "\<And>b. prefix b (fst (g b))"
  shows "prefix buf (fst (seq f g buf))"
proof (cases "f buf")
  case (Pair b' r)
  have 1: "prefix buf b'" using assms(1) [of buf] Pair by simp
  show ?thesis
  proof (cases r)
    case None
    then have "seq f g buf = g b'" using Pair by (simp add: seq_def)
    then show ?thesis using 1 assms(2) [of b'] by (metis prefix_order.trans)
  next
    case (Some e)
    then show ?thesis using Pair 1 by (simp add: seq_def)
  qed
qed

lemma prefix_for_each:
  assumes "\<And>x b. prefix b (fst (body x b))"
  shows "prefix buf (fst (for_each body xs buf))"
proof (induction xs arbitrary: buf)
  case Nil
  show ?case by (simp add: prefix_skip)
next
  case (Cons x xs)
  show ?case
    unfolding for_each.simps
    by (rule prefix_seq) (rule assms, rule Cons.IH)
qed

lemma prefix_write_cols: "prefix buf (fst (write_cols ops index_tab col j vs buf))"
proof (induction vs arbitrary: j buf)
  case Nil
  show ?case by (simp add: prefix_skip)
next
  case (Cons c cs)
  show ?case
  proof (cases "index index_tab j")
    case (Inl e)
    then show ?thesis by (simp add: prefix_raise)
  next
    case (Inr k)
    note k = this
    show ?thesis
    proof (cases "index col k")
      case (Inl e)
      then show ?thesis using k by (simp add: prefix_raise)
    next
      case (Inr color)
      have "prefix buf (fst (seq (f_write (triplet ops color)) (write_cols ops index_tab col (Suc j) cs) buf))"
        by (rule prefix_seq) (rule prefix_f_write, rule Cons.IH)
      then show ?thesis using k Inr by simp
    qed
  qed
qed

lemma prefix_texture_step: "prefix buf (fst (texture_step t ctp g buf))"
  unfolding texture_step_def
  by (auto intro!: prefix_seq prefix_f_write prefix_raise)

lemma prefix_color_step: "prefix buf (fst (color_step ops t ctp mesh_cols col g p buf))"
  unfolding color_step_def Let_def
  by (auto intro!: prefix_seq prefix_f_write prefix_raise prefix_skip prefix_write_cols
      split: option.splits sum.splits)

lemma prefix_mat_face_with: "prefix buf (fst (mat_face_with t ops ctp mesh_cols ip buf))"
proof (cases ip)
  case (Pair i p)
  have tail: "\<And>b. prefix b (fst ((\<lambda>buf. case classify mesh_cols p of
                      Inl e \<Rightarrow> raise e buf
                    | Inr (col, pol_gouraud) \<Rightarrow>
                        seq (texture_step t ctp pol_gouraud)
                       (seq (color_step ops t ctp mesh_cols col pol_gouraud p)
                            (f_write nl)) buf) b))"
    by (auto split: sum.splits intro!: prefix_raise prefix_seq prefix_texture_step
        prefix_color_step prefix_f_write)
  show ?thesis
    unfolding Pair mat_face_with_def prod.case
    by (intro prefix_seq prefix_f_write tail)
qed

lemma prefix_mat_face: "prefix buf (fst (mat_face ops ctp mesh_cols ip buf))"
  by (simp add: mat_face_def prefix_mat_face_with)

lemma write_mat_eq:
  "write_mat ops ctp mesh =
     for_each (mat_face ops ctp (vertex_colors mesh)) (enumerate 0 (loop_triangles mesh))
       (''@MAT940801'' @ nl @ show_nat (length (loop_triangles mesh)) @ nl)"
  by (simp add: write_mat_def seq_f_write)

section \<open>The headers of the two files\<close>

text \<open>
  Claim C4. The geometry file starts with the line \<^verbatim>\<open>@PLY940102\<close> and the counts line
  of the number of vertices, the number of vertices plus the number of faces, and the
  number of faces. The shading file starts with the line \<^verbatim>\<open>@MAT940801\<close> and the line
  of the number of faces, also when an exception ends the writing of the face lines.
\<close>

theorem file_headers:
  "prefix (''@PLY940102'' @ nl
             @ show_nat (length (vertices mesh)) @ '' ''
             @ show_nat (length (vertices mesh) + length (loop_triangles mesh)) @ '' ''
             @ show_nat (length (loop_triangles mesh)) @ nl)
          (write_ply ops scale mesh)
   \<and> prefix (''@MAT940801'' @ nl @ show_nat (length (loop_triangles mesh)) @ nl)
             (fst (write_mat ops coloredTexPolys mesh))"
proof
  have "write_ply ops scale mesh =
      (''@PLY940102'' @ nl
             @ show_nat (length (vertices mesh)) @ '' ''
             @ show_nat (length (vertices mesh) + length (loop_triangles mesh)) @ '' ''
             @ show_nat (length (loop_triangles mesh)) @ nl)
       @ (''# Vertices'' @ nl
       @ concat (map (vertex_line ops scale) (vertices mesh))
       @ ''# Normals'' @ nl
       @ ''# Smooth normals begin here'' @ nl
       @ concat (smooth_rows ops mesh)
       @ ''# Flat normals begin here'' @ nl
       @ concat (flat_rows ops mesh)
       @ ''# Polygon'' @ nl
       @ concat (face_block (length (vertices mesh)) (loop_triangles mesh)))"
    by (simp add: write_ply_eq ply_counts_def)
  then show "prefix (''@PLY940102'' @ nl
             @ show_nat (length (vertices mesh)) @ '' ''
             @ show_nat (length (vertices mesh) + length (loop_triangles mesh)) @ '' ''
             @ show_nat (length (loop_triangles mesh)) @ nl)
          (write_ply ops scale mesh)"
    by (simp only: prefixI)
next
  show "prefix (''@MAT940801'' @ nl @ show_nat (length (loop_triangles mesh)) @ nl)
             (fst (write_mat ops coloredTexPolys mesh))"
    unfolding write_mat_eq
    by (rule prefix_for_each) (rule prefix_mat_face)
qed

theorem file_headers_witness:
  "prefix (''@PLY940102'' @ nl @ ''4 7 3'' @ nl) (write_ply int_ops 2 plain_mesh)
   \<and> prefix (''@MAT940801'' @ nl @ ''3'' @ nl) (fst (write_mat int_ops False plain_mesh))"
proof -
  have len: "length (vertices plain_mesh) = 4" "length (loop_triangles plain_mesh) = 3"
    by (simp_all add: plain_mesh_def corners_def)
  have sn: "show_nat 4 = ''4''" "show_nat (4 + 3) = ''7''" "show_nat 3 = ''3''"
    by code_simp+
  show ?thesis
    using file_headers [of plain_mesh int_ops 2 False, unfolded len sn] by simp
qed

section \<open>The vertex block and the normal block\<close>

text \<open>
  Claim C5. After the header the geometry file has one line per vertex, in vertex order,
  holding \<open>x * scale\<close>, \<open>(- z) * scale\<close> and \<open>y * scale\<close> of its position, for any scale
  factor; then the smooth section with one row per vertex, in vertex order, holding
  \<open>x\<close>, \<open>- z\<close> and \<open>y\<close> of its normal, unscaled; then the flat section with one row per
  face, in face order, remapped the same way. Counting the rows of the two sections
  together from 0, row \<open>j\<close> is that of vertex \<open>j\<close> and row \<open>length vertices + k\<close> is
  that of face \<open>k\<close>. The arithmetic and the printing of the floats are the parameters
  \<open>fmul\<close>, \<open>fneg\<close> and \<open>fmtE\<close>.
\<close>

theorem vertex_and_normal_blocks:
  "write_ply ops scale mesh =
     ''@PLY940102'' @ nl @ ply_counts mesh
       @ ''# Vertices'' @ nl
       @ concat (map (\<lambda>v. fmtE ops (fmul ops (vx (co v)) scale) @ '' ''
                          @ fmtE ops (fmul ops (fneg ops (vz (co v))) scale) @ '' ''
                          @ fmtE ops (fmul ops (vy (co v)) scale) @ nl)
                     (vertices mesh))
       @ ''# Normals'' @ nl
       @ ''# Smooth normals begin here'' @ nl
       @ concat (smooth_rows ops mesh)
       @ ''# Flat normals begin here'' @ nl
       @ concat (flat_rows ops mesh)
       @ ''# Polygon'' @ nl
       @ concat (face_block (length (vertices mesh)) (loop_triangles mesh))
   \<and> smooth_rows ops mesh =
       map (\<lambda>v. fmtE ops (vx (v_normal v)) @ '' '' @ fmtE ops (fneg ops (vz (v_normal v)))
                   @ '' '' @ fmtE ops (vy (v_normal v)) @ nl)
           (vertices mesh)
   \<and> flat_rows ops mesh =
       map (\<lambda>p. fmtE ops (vx (p_normal p)) @ '' '' @ fmtE ops (fneg ops (vz (p_normal p)))
                   @ '' '' @ fmtE ops (vy (p_normal p)) @ nl)
           (loop_triangles mesh)
   \<and> (j < length (vertices mesh) \<longrightarrow>
        (smooth_rows ops mesh @ flat_rows ops mesh) ! j = smooth_rows ops mesh ! j)
   \<and> (k < length (loop_triangles mesh) \<longrightarrow>
        (smooth_rows ops mesh @ flat_rows ops mesh) ! (length (vertices mesh) + k)
          = flat_rows ops mesh ! k)"
proof (intro conjI impI)
  show "write_ply ops scale mesh =
     ''@PLY940102'' @ nl @ ply_counts mesh
       @ ''# Vertices'' @ nl
       @ concat (map (\<lambda>v. fmtE ops (fmul ops (vx (co v)) scale) @ '' ''
                          @ fmtE ops (fmul ops (fneg ops (vz (co v))) scale) @ '' ''
                          @ fmtE ops (fmul ops (vy (co v)) scale) @ nl)
                     (vertices mesh))
       @ ''# Normals'' @ nl
       @ ''# Smooth normals begin here'' @ nl
       @ concat (smooth_rows ops mesh)
       @ ''# Flat normals begin here'' @ nl
       @ concat (flat_rows ops mesh)
       @ ''# Polygon'' @ nl
       @ concat (face_block (length (vertices mesh)) (loop_triangles mesh))"
    unfolding write_ply_eq vertex_line_def fmt3E_def ..
next
  show "smooth_rows ops mesh =
       map (\<lambda>v. fmtE ops (vx (v_normal v)) @ '' '' @ fmtE ops (fneg ops (vz (v_normal v)))
                   @ '' '' @ fmtE ops (vy (v_normal v)) @ nl)
           (vertices mesh)"
    unfolding smooth_rows_def normal_line_def fmt3E_def ..
next
  show "flat_rows ops mesh =
       map (\<lambda>p. fmtE ops (vx (p_normal p)) @ '' '' @ fmtE ops (fneg ops (vz (p_normal p)))
                   @ '' '' @ fmtE ops (vy (p_normal p)) @ nl)
           (loop_triangles mesh)"
    unfolding flat_rows_def normal_line_def fmt3E_def ..
next
  assume "j < length (vertices mesh)"
  then show "(smooth_rows ops mesh @ flat_rows ops mesh) ! j = smooth_rows ops mesh ! j"
    by (simp add: smooth_rows_def nth_append)
next
  assume "k < length (loop_triangles mesh)"
  have "length (smooth_rows ops mesh) = length (vertices mesh)"
    by (simp add: smooth_rows_def)
  then show "(smooth_rows ops mesh @ flat_rows ops mesh) ! (length (vertices mesh) + k)
          = flat_rows ops mesh ! k"
    by (metis nth_append_length_plus)
qed

theorem vertex_and_normal_blocks_witness:
  "write_ply int_ops 2 plain_mesh =
     ''@PLY940102'' @ nl @ ''4 7 3'' @ nl
       @ ''# Vertices'' @ nl
       @ ''0 0 0'' @ nl @ ''2 0 0'' @ nl @ ''2 -6 4'' @ nl @ ''0 -6 4'' @ nl
       @ ''# Normals'' @ nl
       @ ''# Smooth normals begin here'' @ nl
       @ ''0 -2 -3'' @ nl @ ''0 -2 -3'' @ nl @ ''0 -2 -3'' @ nl @ ''0 -2 -3'' @ nl
       @ ''# Flat normals begin here'' @ nl
       @ ''0 -2 -3'' @ nl @ ''0 -2 -3'' @ nl @ ''0 -2 -3'' @ nl
       @ ''# Polygon'' @ nl
       @ ''1 3 2 0 1 4 4 4 4'' @ nl @ ''0 0 3 2 0 0 3 2 0'' @ nl @ nl
   \<and> (smooth_rows int_ops plain_mesh @ flat_rows int_ops plain_mesh) ! 2 = ''0 -2 -3'' @ nl
   \<and> (smooth_rows int_ops plain_mesh @ flat_rows int_ops plain_mesh) ! (4 + 1) = ''0 -2 -3'' @ nl"
proof -
  have len: "length (vertices plain_mesh) = 4" "length (loop_triangles plain_mesh) = 3"
    by (simp_all add: plain_mesh_def corners_def)
  have parts:
    "ply_counts plain_mesh = ''4 7 3'' @ nl"
    "concat (map (\<lambda>v. fmtE int_ops (fmul int_ops (vx (co v)) 2) @ '' ''
                          @ fmtE int_ops (fmul int_ops (fneg int_ops (vz (co v))) 2) @ '' ''
                          @ fmtE int_ops (fmul int_ops (vy (co v)) 2) @ nl)
                     (vertices plain_mesh))
       = ''0 0 0'' @ nl @ ''2 0 0'' @ nl @ ''2 -6 4'' @ nl @ ''0 -6 4'' @ nl"
    "concat (smooth_rows int_ops plain_mesh)
       = ''0 -2 -3'' @ nl @ ''0 -2 -3'' @ nl @ ''0 -2 -3'' @ nl @ ''0 -2 -3'' @ nl"
    "concat (flat_rows int_ops plain_mesh) = ''0 -2 -3'' @ nl @ ''0 -2 -3'' @ nl @ ''0 -2 -3'' @ nl"
    "concat (face_block 4 (loop_triangles plain_mesh))
       = ''1 3 2 0 1 4 4 4 4'' @ nl @ ''0 0 3 2 0 0 3 2 0'' @ nl @ nl"
    "smooth_rows int_ops plain_mesh ! 2 = ''0 -2 -3'' @ nl"
    "flat_rows int_ops plain_mesh ! 1 = ''0 -2 -3'' @ nl"
    by code_simp+
  note T = vertex_and_normal_blocks [of int_ops 2 plain_mesh 2 1, unfolded len parts]
  show ?thesis
    using T [THEN conjunct1]
      T [THEN conjunct2, THEN conjunct2, THEN conjunct2, THEN conjunct1]
      T [THEN conjunct2, THEN conjunct2, THEN conjunct2, THEN conjunct2]
    by simp
qed

section \<open>The lines of the shading file\<close>

text \<open>What the classification and the colour loop compute when every index is in range.\<close>

lemma index_all_valid:
  "\<forall>l\<in>set ls. l < length xs \<Longrightarrow> index_all xs ls = Inr (map ((!) xs) ls)"
  by (induction ls) (simp_all add: index_def)

lemma check_gouraud_three:
  "3 \<le> length col \<Longrightarrow>
   check_gouraud col = Inr (\<not> (col ! 0 = col ! 1 \<and> col ! 1 = col ! 2 \<and> col ! 2 = col ! 0))"
  by (auto simp add: check_gouraud_def index_def)

lemma classify_None: "classify None p = Inr ([], False)"
  by (simp add: classify_def)

lemma classify_Some_valid:
  assumes "\<forall>l\<in>set (p_loops p). l < length cols" and "3 \<le> length (p_loops p)"
  shows "classify (Some cols) p =
           Inr (map ((!) cols) (p_loops p),
                \<not> (map ((!) cols) (p_loops p) ! 0 = map ((!) cols) (p_loops p) ! 1
                   \<and> map ((!) cols) (p_loops p) ! 1 = map ((!) cols) (p_loops p) ! 2
                   \<and> map ((!) cols) (p_loops p) ! 2 = map ((!) cols) (p_loops p) ! 0))"
proof -
  have "3 \<le> length (map ((!) cols) (p_loops p))"
    using assms(2) by simp
  then have "check_gouraud (map ((!) cols) (p_loops p)) =
      Inr (\<not> (map ((!) cols) (p_loops p) ! 0 = map ((!) cols) (p_loops p) ! 1
                   \<and> map ((!) cols) (p_loops p) ! 1 = map ((!) cols) (p_loops p) ! 2
                   \<and> map ((!) cols) (p_loops p) ! 2 = map ((!) cols) (p_loops p) ! 0))"
    by (rule check_gouraud_three)
  then show ?thesis
    using assms(1) by (simp add: classify_def index_all_valid)
qed

lemma index_in_range: "i < length xs \<Longrightarrow> index xs i = Inr (xs ! i)"
  by (simp add: index_def)

lemma write_cols_quad:
  assumes "length vs = 4" and "4 \<le> length col"
  shows "write_cols ops [3, 2, 0, 1] col 0 vs buf =
           (buf @ triplet ops (col ! 3) @ triplet ops (col ! 2) @ triplet ops (col ! 0)
              @ triplet ops (col ! 1), None)"
proof -
  obtain a b c d where vs: "vs = [a, b, c, d]"
    using assms(1) by (auto simp: length_Suc_conv numeral_eq_Suc)
  have col: "index col 3 = Inr (col ! 3)" "index col 2 = Inr (col ! 2)"
    "index col 0 = Inr (col ! 0)" "index col 1 = Inr (col ! 1)"
    using assms(2) by (auto simp add: index_def)
  have tab: "index [3, 2, 0, 1] 0 = Inr (3::nat)" "index [3, 2, 0, 1] (Suc 0) = Inr (2::nat)"
    "index [3, 2, 0, 1] (Suc (Suc 0)) = Inr (0::nat)"
    "index [3, 2, 0, 1] (Suc (Suc (Suc 0))) = Inr (1::nat)"
    by (simp_all add: index_def)
  show ?thesis
    unfolding vs write_cols.simps tab sum.case col seq_f_write
    by (simp add: skip_def)
qed

lemma write_cols_tri:
  assumes "length vs = 3" and "3 \<le> length col"
  shows "write_cols ops [0, 2, 1] col 0 vs buf =
           (buf @ triplet ops (col ! 0) @ triplet ops (col ! 2) @ triplet ops (col ! 1), None)"
proof -
  obtain a b c where vs: "vs = [a, b, c]"
    using assms(1) by (auto simp: length_Suc_conv numeral_eq_Suc)
  have col: "index col 0 = Inr (col ! 0)" "index col 2 = Inr (col ! 2)"
    "index col 1 = Inr (col ! 1)"
    using assms(2) by (auto simp add: index_def)
  have tab: "index [0, 2, 1] 0 = Inr (0::nat)" "index [0, 2, 1] (Suc 0) = Inr (2::nat)"
    "index [0, 2, 1] (Suc (Suc 0)) = Inr (1::nat)"
    by (simp_all add: index_def)
  show ?thesis
    unfolding vs write_cols.simps tab sum.case col seq_f_write
    by (simp add: skip_def)
qed

lemma pol_textured_False: "mat_face = mat_face_with False"
  by (simp add: mat_face_def pol_textured_def)

lemma mat_face_classified:
  assumes "classify mesh_cols p = Inr (col, g)"
  shows "mat_face ops ctp mesh_cols (i, p) buf =
           seq (color_step ops False ctp mesh_cols col g p) (f_write nl)
             (buf @ show_nat i @ tab @ '' 0 '' @ (if use_smooth p then ''G '' else ''F '')
                @ (if g then ''G '' else ''C ''))"
  using assms
  by (simp add: pol_textured_False mat_face_with_def seq_f_write texture_step_def)

lemma mat_face_raised:
  assumes "classify mesh_cols p = Inl e"
  shows "mat_face ops ctp mesh_cols (i, p) buf =
           (buf @ show_nat i @ tab @ '' 0 '' @ (if use_smooth p then ''G '' else ''F ''), Some e)"
  using assms
  by (simp add: pol_textured_False mat_face_with_def seq_f_write raise_def)

lemma seq_done: "a buf = (buf', None) \<Longrightarrow> seq a b buf = b buf'"
  by (simp add: seq_def)

lemma color_step_quad:
  assumes "length (p_vertices p) = 4" and "4 \<le> length col"
  shows "color_step ops False ctp (Some cols) col True p buf =
           (buf @ triplet ops (col ! 3) @ triplet ops (col ! 2) @ triplet ops (col ! 0)
              @ triplet ops (col ! 1), None)"
proof -
  have w: "write_cols ops [3, 2, 0, 1] col 0 (p_vertices p) buf =
           (buf @ triplet ops (col ! 3) @ triplet ops (col ! 2) @ triplet ops (col ! 0)
              @ triplet ops (col ! 1), None)"
    using assms by (rule write_cols_quad)
  show ?thesis
    using assms(1) by (simp add: color_step_def seq_def w skip_def del: One_nat_def)
qed

lemma color_step_tri:
  assumes "length (p_vertices p) = 3" and "3 \<le> length col"
  shows "color_step ops False ctp (Some cols) col True p buf =
           (buf @ triplet ops (col ! 0) @ triplet ops (col ! 2) @ triplet ops (col ! 1)
              @ ''0 0 0'', None)"
proof -
  have w: "write_cols ops [0, 2, 1] col 0 (p_vertices p) buf =
           (buf @ triplet ops (col ! 0) @ triplet ops (col ! 2) @ triplet ops (col ! 1), None)"
    using assms by (rule write_cols_tri)
  show ?thesis
    using assms(1) by (simp add: color_step_def seq_def w f_write_def del: One_nat_def)
qed

lemma color_step_flat:
  assumes "0 < length col"
  shows "color_step ops False ctp (Some cols) col False p buf =
           (buf @ triplet ops (col ! 0), None)"
  using assms
  by (simp add: color_step_def index_def f_write_def)

lemma color_step_None:
  "color_step ops False ctp None col g p buf =
     (buf @ show_int (fint ops (color_mul ops)) @ '' ''
          @ show_int (fint ops (color_mul ops)) @ '' ''
          @ show_int (fint ops (color_mul ops)) @ '' '', None)"
  by (simp add: color_step_def f_write_def)

lemma show_int_255: "show_int 255 = ''255''"
  by code_simp

text \<open>
  Claim C6. For a face with three or four vertices, as many loops, and loop indices inside
  the colour channel, the shading line is the face number, the tone letter, the colour tag
  and the colours: when the face is classified gouraud-coloured, the loop colours in the
  order 3, 2, 0, 1 for a quad and 0, 2, 1 followed by \<^verbatim>\<open>0 0 0\<close> for a triangle; otherwise
  the colour of the first loop only. Every channel is printed as the integer part of the
  channel times \<open>color_mul\<close>. Without a colour channel the line ends with
  \<^verbatim>\<open>255 255 255\<close>, given that the integer part of the float \<^verbatim>\<open>255.0\<close> is 255. The
  classification \<open>g\<close> is the one the code computes.
\<close>

theorem shading_line_colors:
  "(length (p_loops p) = length (p_vertices p)
      \<and> (length (p_vertices p) = 3 \<or> length (p_vertices p) = 4)
      \<and> (\<forall>l\<in>set (p_loops p). l < length cols)
    \<longrightarrow> (\<exists>g. classify (Some cols) p = Inr (map ((!) cols) (p_loops p), g) \<and>
             mat_face ops ctp (Some cols) (i, p) buf =
               (buf @ show_nat i @ tab @ '' 0 '' @ (if use_smooth p then ''G '' else ''F '')
                  @ (if g then
                       ''G ''
                         @ (if length (p_vertices p) = 4 then
                              triplet ops (cols ! (p_loops p ! 3))
                                @ triplet ops (cols ! (p_loops p ! 2))
                                @ triplet ops (cols ! (p_loops p ! 0))
                                @ triplet ops (cols ! (p_loops p ! 1))
                            else
                              triplet ops (cols ! (p_loops p ! 0))
                                @ triplet ops (cols ! (p_loops p ! 2))
                                @ triplet ops (cols ! (p_loops p ! 1))
                                @ ''0 0 0'')
                     else ''C '' @ triplet ops (cols ! (p_loops p ! 0)))
                  @ nl,
                None)))
   \<and> (fint ops (color_mul ops) = 255
        \<longrightarrow> mat_face ops ctp None (i, p) buf =
              (buf @ show_nat i @ tab @ '' 0 '' @ (if use_smooth p then ''G '' else ''F '')
                 @ ''C '' @ ''255 255 255 '' @ nl,
               None))
   \<and> triplet ops c =
       show_int (fint ops (fmul ops (c0 c) (color_mul ops))) @ '' ''
         @ show_int (fint ops (fmul ops (c1 c) (color_mul ops))) @ '' ''
         @ show_int (fint ops (fmul ops (c2 c) (color_mul ops))) @ '' ''"
proof (intro conjI impI)
  assume a: "length (p_loops p) = length (p_vertices p)
      \<and> (length (p_vertices p) = 3 \<or> length (p_vertices p) = 4)
      \<and> (\<forall>l\<in>set (p_loops p). l < length cols)"
  let ?col = "map ((!) cols) (p_loops p)"
  let ?g = "\<not> (?col ! 0 = ?col ! 1 \<and> ?col ! 1 = ?col ! 2 \<and> ?col ! 2 = ?col ! 0)"
  let ?head = "buf @ show_nat i @ tab @ '' 0 '' @ (if use_smooth p then ''G '' else ''F '')"
  have len: "length ?col = length (p_vertices p)" using a by simp
  have three: "3 \<le> length (p_loops p)" using a by auto
  have cl: "classify (Some cols) p = Inr (?col, ?g)"
    by (rule classify_Some_valid) (use a three in auto)
  have mf: "mat_face ops ctp (Some cols) (i, p) buf =
      seq (color_step ops False ctp (Some cols) ?col ?g p) (f_write nl)
        (?head @ (if ?g then ''G '' else ''C ''))"
    using mat_face_classified [OF cl, of ops ctp i buf] by simp
  have nth: "\<And>k. k < length (p_loops p) \<Longrightarrow> ?col ! k = cols ! (p_loops p ! k)"
    by simp
  have line: "mat_face ops ctp (Some cols) (i, p) buf =
               (?head
                  @ (if ?g then
                       ''G ''
                         @ (if length (p_vertices p) = 4 then
                              triplet ops (cols ! (p_loops p ! 3))
                                @ triplet ops (cols ! (p_loops p ! 2))
                                @ triplet ops (cols ! (p_loops p ! 0))
                                @ triplet ops (cols ! (p_loops p ! 1))
                            else
                              triplet ops (cols ! (p_loops p ! 0))
                                @ triplet ops (cols ! (p_loops p ! 2))
                                @ triplet ops (cols ! (p_loops p ! 1))
                                @ ''0 0 0'')
                     else ''C '' @ triplet ops (cols ! (p_loops p ! 0)))
                  @ nl,
                None)"
  proof (cases ?g)
    case False
    have "0 < length ?col" using three by auto
    then have "color_step ops False ctp (Some cols) ?col False p (?head @ ''C '')
        = ((?head @ ''C '') @ triplet ops (?col ! 0), None)"
      by (rule color_step_flat)
    moreover have "?col ! 0 = cols ! (p_loops p ! 0)" using three by (intro nth) auto
    ultimately show ?thesis
      using False mf by (simp add: seq_def f_write_def)
  next
    case True
    show ?thesis
    proof (cases "length (p_vertices p) = 4")
      case q: True
      then have "4 \<le> length ?col" using len by simp
      with q have "color_step ops False ctp (Some cols) ?col True p (?head @ ''G '')
        = ((?head @ ''G '') @ triplet ops (?col ! 3) @ triplet ops (?col ! 2)
             @ triplet ops (?col ! 0) @ triplet ops (?col ! 1), None)"
        by (rule color_step_quad)
      moreover have "?col ! 0 = cols ! (p_loops p ! 0)" "?col ! 1 = cols ! (p_loops p ! 1)"
        "?col ! 2 = cols ! (p_loops p ! 2)" "?col ! 3 = cols ! (p_loops p ! 3)"
        using q a by (simp_all only: nth_map)
      ultimately show ?thesis
        using True q mf by (simp add: seq_def f_write_def)
    next
      case nq: False
      then have t: "length (p_vertices p) = 3" using a by simp
      then have "3 \<le> length ?col" using len by simp
      with t have "color_step ops False ctp (Some cols) ?col True p (?head @ ''G '')
        = ((?head @ ''G '') @ triplet ops (?col ! 0) @ triplet ops (?col ! 2)
             @ triplet ops (?col ! 1) @ ''0 0 0'', None)"
        by (rule color_step_tri)
      moreover have "?col ! 0 = cols ! (p_loops p ! 0)" "?col ! 1 = cols ! (p_loops p ! 1)"
        "?col ! 2 = cols ! (p_loops p ! 2)"
        using t a by (simp_all only: nth_map)
      ultimately show ?thesis
        using True t mf by (simp add: seq_def f_write_def)
    qed
  qed
  show "\<exists>g. classify (Some cols) p = Inr (map ((!) cols) (p_loops p), g) \<and>
             mat_face ops ctp (Some cols) (i, p) buf =
               (buf @ show_nat i @ tab @ '' 0 '' @ (if use_smooth p then ''G '' else ''F '')
                  @ (if g then
                       ''G ''
                         @ (if length (p_vertices p) = 4 then
                              triplet ops (cols ! (p_loops p ! 3))
                                @ triplet ops (cols ! (p_loops p ! 2))
                                @ triplet ops (cols ! (p_loops p ! 0))
                                @ triplet ops (cols ! (p_loops p ! 1))
                            else
                              triplet ops (cols ! (p_loops p ! 0))
                                @ triplet ops (cols ! (p_loops p ! 2))
                                @ triplet ops (cols ! (p_loops p ! 1))
                                @ ''0 0 0'')
                     else ''C '' @ triplet ops (cols ! (p_loops p ! 0)))
                  @ nl,
                None)"
    by (rule exI [of _ ?g], rule conjI, rule cl) (use line in \<open>simp only: append_assoc\<close>)
next
  assume "fint ops (color_mul ops) = 255"
  then show "mat_face ops ctp None (i, p) buf =
              (buf @ show_nat i @ tab @ '' 0 '' @ (if use_smooth p then ''G '' else ''F '')
                 @ ''C '' @ ''255 255 255 '' @ nl,
               None)"
    by (simp add: mat_face_classified [OF classify_None] color_step_None seq_def f_write_def
        show_int_255)
next
  show "triplet ops c =
       show_int (fint ops (fmul ops (c0 c) (color_mul ops))) @ '' ''
         @ show_int (fint ops (fmul ops (c1 c) (color_mul ops))) @ '' ''
         @ show_int (fint ops (fmul ops (c2 c) (color_mul ops))) @ '' ''"
    by (rule triplet_def)
qed

theorem shading_line_colors_witness:
  "mat_face int_ops False (Some loop_colors) (0, quad_face) []
     = (''0'' @ tab @ '' 0 F G 255 255 255 0 0 255 255 0 0 0 255 0 '' @ nl, None)
   \<and> mat_face int_ops False (Some loop_colors) (1, tri_face) []
     = (''1'' @ tab @ '' 0 G C 255 255 255 '' @ nl, None)
   \<and> mat_face int_ops False (Some loop_colors) (2, rgb_tri) []
     = (''2'' @ tab @ '' 0 F G 255 0 0 0 0 255 0 255 0 0 0 0'' @ nl, None)
   \<and> mat_face int_ops False None (0, quad_face) []
     = (''0'' @ tab @ '' 0 F C 255 255 255 '' @ nl, None)"
proof -
  have pre:
    "length (p_loops quad_face) = length (p_vertices quad_face)
      \<and> (length (p_vertices quad_face) = 3 \<or> length (p_vertices quad_face) = 4)
      \<and> (\<forall>l\<in>set (p_loops quad_face). l < length loop_colors)"
    "length (p_loops tri_face) = length (p_vertices tri_face)
      \<and> (length (p_vertices tri_face) = 3 \<or> length (p_vertices tri_face) = 4)
      \<and> (\<forall>l\<in>set (p_loops tri_face). l < length loop_colors)"
    "length (p_loops rgb_tri) = length (p_vertices rgb_tri)
      \<and> (length (p_vertices rgb_tri) = 3 \<or> length (p_vertices rgb_tri) = 4)
      \<and> (\<forall>l\<in>set (p_loops rgb_tri). l < length loop_colors)"
    by (simp_all add: quad_face_def tri_face_def rgb_tri_def loop_colors_def)
  have cm: "fint int_ops (color_mul int_ops) = 255"
    by (simp add: int_ops_def)
  have cl:
    "classify (Some loop_colors) quad_face = Inr (map ((!) loop_colors) (p_loops quad_face), True)"
    "classify (Some loop_colors) tri_face = Inr (map ((!) loop_colors) (p_loops tri_face), False)"
    "classify (Some loop_colors) rgb_tri = Inr (map ((!) loop_colors) (p_loops rgb_tri), True)"
    by code_simp+
  have ev:
    "length (p_vertices quad_face) = 4" "length (p_vertices rgb_tri) = 3"
    "use_smooth quad_face = False" "use_smooth tri_face = True" "use_smooth rgb_tri = False"
    "show_nat 0 = ''0''" "show_nat 1 = ''1''" "show_nat 2 = ''2''"
    "triplet int_ops (loop_colors ! (p_loops quad_face ! 3)) = ''255 255 255 ''"
    "triplet int_ops (loop_colors ! (p_loops quad_face ! 2)) = ''0 0 255 ''"
    "triplet int_ops (loop_colors ! (p_loops quad_face ! 0)) = ''255 0 0 ''"
    "triplet int_ops (loop_colors ! (p_loops quad_face ! 1)) = ''0 255 0 ''"
    "triplet int_ops (loop_colors ! (p_loops tri_face ! 0)) = ''255 255 255 ''"
    "triplet int_ops (loop_colors ! (p_loops rgb_tri ! 0)) = ''255 0 0 ''"
    "triplet int_ops (loop_colors ! (p_loops rgb_tri ! 2)) = ''0 0 255 ''"
    "triplet int_ops (loop_colors ! (p_loops rgb_tri ! 1)) = ''0 255 0 ''"
    by code_simp+
  have q: "mat_face int_ops False (Some loop_colors) (0, quad_face) []
     = (''0'' @ tab @ '' 0 F G 255 255 255 0 0 255 255 0 0 0 255 0 '' @ nl, None)"
    using shading_line_colors [of quad_face loop_colors int_ops False 0 "[]" white,
        THEN conjunct1, THEN mp, OF pre(1)] cl(1)
    by (auto simp add: ev simp del: One_nat_def)
  have t: "mat_face int_ops False (Some loop_colors) (1, tri_face) []
     = (''1'' @ tab @ '' 0 G C 255 255 255 '' @ nl, None)"
    using shading_line_colors [of tri_face loop_colors int_ops False 1 "[]" white,
        THEN conjunct1, THEN mp, OF pre(2)] cl(2)
    by (auto simp add: ev simp del: One_nat_def)
  have r: "mat_face int_ops False (Some loop_colors) (2, rgb_tri) []
     = (''2'' @ tab @ '' 0 F G 255 0 0 0 0 255 0 255 0 0 0 0'' @ nl, None)"
    using shading_line_colors [of rgb_tri loop_colors int_ops False 2 "[]" white,
        THEN conjunct1, THEN mp, OF pre(3)] cl(3)
    by (auto simp add: ev simp del: One_nat_def)
  have n: "mat_face int_ops False None (0, quad_face) []
     = (''0'' @ tab @ '' 0 F C 255 255 255 '' @ nl, None)"
    using shading_line_colors [of quad_face loop_colors int_ops False 0 "[]" white,
        THEN conjunct2, THEN conjunct1, THEN mp, OF cm]
    by (simp add: ev)
  show ?thesis
    using q t r n by (intro conjI)
qed

section \<open>The texture flag\<close>

text \<open>
  The only exception the classification and the colour loop raise is IndexError. With the
  flag set, the loop body would write one of the tags \<open>T\<close>, \<open>D\<close>, \<open>H\<close> and raise
  NameError at \<^verbatim>\<open>tex_table\<close>.
\<close>

lemma index_error: "index xs i = Inl e \<Longrightarrow> e = IndexError"
  by (simp add: index_def split: if_splits)

lemma index_all_error: "index_all xs ls = Inl e \<Longrightarrow> e = IndexError"
  by (induction ls arbitrary: e) (auto split: sum.splits dest: index_error)

lemma check_gouraud_error: "check_gouraud col = Inl e \<Longrightarrow> e = IndexError"
  by (auto simp add: check_gouraud_def split: sum.splits if_splits dest: index_error)

lemma classify_error: "classify mesh_cols p = Inl e \<Longrightarrow> e = IndexError"
  by (auto simp add: classify_def split: option.splits sum.splits
      dest: index_all_error check_gouraud_error)

lemma seq_snd:
  assumes "\<And>b. P (snd (f b))" and "\<And>b. P (snd (g b))"
  shows "P (snd (seq f g buf))"
proof (cases "f buf")
  case (Pair b' r)
  show ?thesis
  proof (cases r)
    case None
    then have "seq f g buf = g b'" using Pair by (simp add: seq_def)
    then show ?thesis using assms(2) [of b'] by simp
  next
    case (Some e)
    then have "snd (seq f g buf) = snd (f buf)" using Pair by (simp add: seq_def)
    then show ?thesis using assms(1) [of buf] by simp
  qed
qed

lemma for_each_snd:
  assumes "P None" and "\<And>x b. P (snd (body x b))"
  shows "P (snd (for_each body xs buf))"
proof (induction xs arbitrary: buf)
  case Nil
  show ?case using assms(1) by (simp add: skip_def)
next
  case (Cons x xs)
  show ?case
    unfolding for_each.simps
    by (rule seq_snd) (rule assms(2), rule Cons.IH)
qed

lemma write_cols_no_NameError:
  "snd (write_cols ops index_tab col j vs buf) \<noteq> Some (NameError n)"
proof (induction vs arbitrary: j buf)
  case Nil
  show ?case by (simp add: skip_def)
next
  case (Cons c cs)
  show ?case
  proof (cases "index index_tab j")
    case (Inl e)
    then show ?thesis using index_error [OF Inl] by (simp add: raise_def)
  next
    case (Inr k)
    note k = this
    show ?thesis
    proof (cases "index col k")
      case (Inl e)
      then show ?thesis using k index_error [OF Inl] by (simp add: raise_def)
    next
      case (Inr color)
      have "snd (seq (f_write (triplet ops color)) (write_cols ops index_tab col (Suc j) cs) buf)
              \<noteq> Some (NameError n)"
        by (rule seq_snd) (simp add: f_write_def, rule Cons.IH)
      then show ?thesis using k Inr by simp
    qed
  qed
qed

lemma color_step_no_NameError:
  "snd (color_step ops t ctp mesh_cols col g p buf) \<noteq> Some (NameError n)"
proof -
  have w: "\<And>tab b. snd (seq (write_cols ops tab col 0 (p_vertices p))
                 (if length (p_vertices p) = 3 then f_write ''0 0 0'' else skip) b)
             \<noteq> Some (NameError n)"
    by (rule seq_snd) (rule write_cols_no_NameError, simp add: f_write_def skip_def)
  show ?thesis
    unfolding color_step_def Let_def
    using w
    by (auto simp add: f_write_def skip_def raise_def split: option.splits sum.splits
        dest: index_error)
qed

lemma mat_face_no_NameError:
  "snd (mat_face ops ctp mesh_cols ip buf) \<noteq> Some (NameError n)"
proof (cases ip)
  case (Pair i p)
  show ?thesis
  proof (cases "classify mesh_cols p")
    case (Inl e)
    then show ?thesis
      using classify_error [OF Inl] by (simp add: Pair mat_face_raised)
  next
    case (Inr cg)
    obtain col g where cg: "cg = (col, g)" by (cases cg)
    have cl: "classify mesh_cols p = Inr (col, g)" using Inr cg by simp
    have "snd (seq (color_step ops False ctp mesh_cols col g p) (f_write nl)
             (buf @ show_nat i @ tab @ '' 0 '' @ (if use_smooth p then ''G '' else ''F '')
                @ (if g then ''G '' else ''C ''))) \<noteq> Some (NameError n)"
      by (rule seq_snd) (rule color_step_no_NameError, simp add: f_write_def)
    then show ?thesis
      unfolding Pair mat_face_classified [OF cl] .
  qed
qed

lemma textured_branch_raises:
  assumes "classify mesh_cols p = Inr (col, g)"
  shows "mat_face_with True ops ctp mesh_cols (i, p) buf =
           (buf @ show_nat i @ tab @ '' 0 '' @ (if use_smooth p then ''G '' else ''F '')
              @ (if ctp then (if g then ''H '' else ''D '') else ''T ''),
            Some (NameError ''tex_table''))"
  using assms
  by (simp add: mat_face_with_def seq_f_write texture_step_def seq_def raise_def f_write_def)

lemma raised_execute:
  "raised (execute ops self mesh) = snd (write_mat ops (exp_coloredTexPolys self) mesh)"
  by (cases "write_mat ops (exp_coloredTexPolys self) mesh")
     (simp add: execute_def Let_def split: option.splits)

lemma write_mat_no_NameError: "snd (write_mat ops ctp mesh) \<noteq> Some (NameError n)"
  unfolding write_mat_eq
  by (rule for_each_snd) (simp, rule mat_face_no_NameError)

lemma texture_step_untextured:
  "texture_step pol_textured ctp g buf = (buf @ (if g then ''G '' else ''C ''), None)"
  by (simp add: texture_step_def pol_textured_def f_write_def)

lemma mat_face_tag:
  "\<exists>rest. fst (mat_face ops ctp mesh_cols (i, p) buf) =
            buf @ show_nat i @ tab @ '' 0 '' @ (if use_smooth p then ''G '' else ''F '') @ rest
          \<and> ((rest = [] \<and> snd (mat_face ops ctp mesh_cols (i, p) buf) = Some IndexError)
              \<or> prefix ''G '' rest \<or> prefix ''C '' rest)"
proof (cases "classify mesh_cols p")
  case (Inl e)
  have "e = IndexError" using Inl by (rule classify_error)
  then have "mat_face ops ctp mesh_cols (i, p) buf =
           (buf @ show_nat i @ tab @ '' 0 '' @ (if use_smooth p then ''G '' else ''F '') @ [],
            Some IndexError)"
    using mat_face_raised [OF Inl, of ops ctp i buf] by simp
  then show ?thesis by (intro exI [of _ "[]"]) simp
next
  case (Inr cg)
  obtain col g where cg: "cg = (col, g)" by (cases cg)
  have cl: "classify mesh_cols p = Inr (col, g)" using Inr cg by simp
  let ?head = "buf @ show_nat i @ tab @ '' 0 '' @ (if use_smooth p then ''G '' else ''F '')"
  let ?tag = "if g then ''G '' else ''C ''"
  have "prefix (?head @ ?tag)
          (fst (seq (color_step ops False ctp mesh_cols col g p) (f_write nl) (?head @ ?tag)))"
    by (rule prefix_seq) (rule prefix_color_step, rule prefix_f_write)
  then have "prefix (?head @ ?tag) (fst (mat_face ops ctp mesh_cols (i, p) buf))"
    using mat_face_classified [OF cl, of ops ctp i buf] by simp
  then obtain post where post: "fst (mat_face ops ctp mesh_cols (i, p) buf) = (?head @ ?tag) @ post"
    by (auto simp add: prefix_def)
  have "fst (mat_face ops ctp mesh_cols (i, p) buf) =
          buf @ show_nat i @ tab @ '' 0 '' @ (if use_smooth p then ''G '' else ''F '')
            @ (?tag @ post)"
    using post by simp
  moreover have "prefix ''G '' (?tag @ post) \<or> prefix ''C '' (?tag @ post)"
    by (cases g) (simp_all add: prefix_def)
  ultimately show ?thesis by blast
qed

text \<open>
  Claim C7. The texture flag is the constant False, so for every face, every mesh and
  every setting of the options the texture step writes the tag \<open>G\<close> or \<open>C\<close> and nothing
  else: the text of a shading line after the tone letter starts with one of these two
  tags, or is empty because the classification raised IndexError. The NameError of the
  textured branch is raised by no face line, by no shading file and by no export.
\<close>

theorem texture_branch_unreachable:
  "texture_step pol_textured ctp g buf = (buf @ (if g then ''G '' else ''C ''), None)
   \<and> (\<exists>rest. fst (mat_face ops ctp mesh_cols (i, p) buf) =
                buf @ show_nat i @ tab @ '' 0 '' @ (if use_smooth p then ''G '' else ''F '')
                  @ rest
              \<and> ((rest = [] \<and> snd (mat_face ops ctp mesh_cols (i, p) buf) = Some IndexError)
                  \<or> prefix ''G '' rest \<or> prefix ''C '' rest))
   \<and> snd (mat_face ops ctp mesh_cols (i, p) buf) \<noteq> Some (NameError n)
   \<and> snd (write_mat ops ctp mesh) \<noteq> Some (NameError n)
   \<and> raised (execute ops self mesh) \<noteq> Some (NameError n)"
  by (intro conjI texture_step_untextured mat_face_tag mat_face_no_NameError
      write_mat_no_NameError) (simp add: raised_execute write_mat_no_NameError)

theorem texture_branch_unreachable_witness:
  "texture_step pol_textured True True [] = (''G '', None)
   \<and> snd (mat_face int_ops True (Some loop_colors) (0, quad_face) [])
        \<noteq> Some (NameError ''tex_table'')
   \<and> snd (write_mat int_ops True colored_mesh) \<noteq> Some (NameError ''tex_table'')
   \<and> raised (execute int_ops model_export colored_mesh) \<noteq> Some (NameError ''tex_table'')"
  using texture_branch_unreachable
    [of True True "[]" int_ops "Some loop_colors" 0 quad_face "''tex_table''" colored_mesh
        model_export]
  by simp

section \<open>The colour classification\<close>

text \<open>
  For a face of three loops whose loop indices are inside the colour channel the
  classification is gouraud exactly when not all loop colours are equal.
\<close>

lemma classify_triangle:
  assumes "length (p_loops p) = 3" and "\<forall>l\<in>set (p_loops p). l < length cols"
  shows "\<exists>col. col = map ((!) cols) (p_loops p)
           \<and> classify (Some cols) p = Inr (col, \<not> (\<forall>c\<in>set col. c = col ! 0))"
proof -
  obtain a b c where l: "p_loops p = [a, b, c]"
    using assms(1) by (auto simp: length_Suc_conv numeral_eq_Suc)
  have "3 \<le> length (p_loops p)" using assms(1) by simp
  from classify_Some_valid [OF assms(2) this] show ?thesis
    unfolding l by auto
qed

text \<open>
  Claim C1. A face of \<^verbatim>\<open>mesh.loop_triangles\<close> has three loops. With a colour channel
  that holds its loop indices, the classification reads the colours of all three loops:
  the face is flat-coloured exactly when the three are identical, and gouraud-coloured
  otherwise. Without a colour channel every face is flat-coloured.
\<close>

theorem classification_by_loop_colors:
  "(length (p_loops p) = 3 \<and> (\<forall>l\<in>set (p_loops p). l < length cols)
    \<longrightarrow> classify (Some cols) p =
          Inr ([cols ! (p_loops p ! 0), cols ! (p_loops p ! 1), cols ! (p_loops p ! 2)],
               \<not> (cols ! (p_loops p ! 0) = cols ! (p_loops p ! 1)
                  \<and> cols ! (p_loops p ! 1) = cols ! (p_loops p ! 2))))
   \<and> classify None p = Inr ([], False)"
proof (intro conjI impI)
  assume a: "length (p_loops p) = 3 \<and> (\<forall>l\<in>set (p_loops p). l < length cols)"
  then obtain x y z where l: "p_loops p = [x, y, z]"
    by (auto simp: length_Suc_conv numeral_eq_Suc)
  have v: "\<forall>l\<in>set (p_loops p). l < length cols" and n: "3 \<le> length (p_loops p)"
    using a by simp_all
  from classify_Some_valid [OF v n]
  show "classify (Some cols) p =
          Inr ([cols ! (p_loops p ! 0), cols ! (p_loops p ! 1), cols ! (p_loops p ! 2)],
               \<not> (cols ! (p_loops p ! 0) = cols ! (p_loops p ! 1)
                  \<and> cols ! (p_loops p ! 1) = cols ! (p_loops p ! 2)))"
    unfolding l by auto
next
  show "classify None p = Inr ([], False)"
    by (rule classify_None)
qed

theorem classification_by_loop_colors_witness:
  "classify (Some loop_colors) tri_face = Inr ([white, white, white], False)
   \<and> classify (Some loop_colors) rgb_tri = Inr ([red, green, blue], True)
   \<and> classify None tri_face = Inr ([], False)"
proof -
  have pre:
    "length (p_loops tri_face) = 3 \<and> (\<forall>l\<in>set (p_loops tri_face). l < length loop_colors)"
    "length (p_loops rgb_tri) = 3 \<and> (\<forall>l\<in>set (p_loops rgb_tri). l < length loop_colors)"
    by (simp_all add: tri_face_def rgb_tri_def loop_colors_def)
  have ev:
    "loop_colors ! (p_loops tri_face ! 0) = white" "loop_colors ! (p_loops tri_face ! 1) = white"
    "loop_colors ! (p_loops tri_face ! 2) = white"
    "loop_colors ! (p_loops rgb_tri ! 0) = red" "loop_colors ! (p_loops rgb_tri ! 1) = green"
    "loop_colors ! (p_loops rgb_tri ! 2) = blue"
    by (simp_all add: tri_face_def rgb_tri_def loop_colors_def)
  have ne: "red \<noteq> green"
    by (simp add: red_def green_def)
  have t: "classify (Some loop_colors) tri_face = Inr ([white, white, white], False)"
    using classification_by_loop_colors [of tri_face loop_colors, THEN conjunct1, THEN mp,
        OF pre(1), unfolded ev]
    by simp
  have r: "classify (Some loop_colors) rgb_tri = Inr ([red, green, blue], True)"
    using classification_by_loop_colors [of rgb_tri loop_colors, THEN conjunct1, THEN mp,
        OF pre(2), unfolded ev] ne
    by simp
  have n: "classify None tri_face = Inr ([], False)"
    using classification_by_loop_colors [of tri_face loop_colors, THEN conjunct2] .
  show ?thesis
    using t r n by (intro conjI)
qed

section \<open>The three paths and the descriptor file\<close>



lemma rstrip_decompose:
  "\<exists>t. s = rstrip s chars @ t \<and> set t \<subseteq> set chars"
proof -
  let ?P = "\<lambda>c. c \<in> set chars"
  have "rev s = takeWhile ?P (rev s) @ dropWhile ?P (rev s)" by simp
  then have "s = rev (dropWhile ?P (rev s)) @ rev (takeWhile ?P (rev s))"
    by (metis rev_append rev_rev_ident)
  moreover have "set (rev (takeWhile ?P (rev s))) \<subseteq> set chars"
    by (auto dest: set_takeWhileD)
  ultimately show ?thesis unfolding rstrip_def by blast
qed

lemma rstrip_last:
  "rstrip s chars = [] \<or> last (rstrip s chars) \<notin> set chars"
proof (cases "dropWhile (\<lambda>c. c \<in> set chars) (rev s)")
  case Nil
  then show ?thesis by (simp add: rstrip_def)
next
  case (Cons x xs)
  then have "x \<notin> set chars" by (metis hd_dropWhile list.sel(1) list.distinct(1))
  then show ?thesis using Cons by (simp add: rstrip_def)
qed






lemma execute_files:
  "files (execute ops self mesh) =
     (ply_filepath (filepath self), write_ply ops (exp_scaleFactor self) mesh)
       # (mat_filepath (filepath self), fst (write_mat ops (exp_coloredTexPolys self) mesh))
       # (if raised (execute ops self mesh) = None
          then [(rsd_filepath (filepath self),
                 write_rsd (ply_filepath (filepath self)) (mat_filepath (filepath self)))]
          else [])"
  by (cases "write_mat ops (exp_coloredTexPolys self) mesh")
     (simp add: execute_def Let_def split: option.splits)



lemma ensure_ext_tail:
  "lower (drop (length (ensure_ext b e) - length e) (ensure_ext b e)) = lower e"
proof (cases "endswith (lower (drop (length b - length e) b)) (lower e)")
  case True
  let ?x = "lower (drop (length b - length e) b)"
  have le: "length ?x \<le> length e" by (simp add: lower_def)
  have "length (lower e) \<le> length ?x" and d: "drop (length ?x - length (lower e)) ?x = lower e"
    using True by (simp_all add: endswith_def)
  then have "length ?x - length (lower e) = 0" using le by (simp add: lower_def)
  then have "?x = lower e" using d by simp
  then show ?thesis using True by (simp add: ensure_ext_def)
next
  case False
  then show ?thesis by (simp add: ensure_ext_def)
qed

lemma ensure_ext_differ:
  assumes "length e1 = length e2" and "lower e1 \<noteq> lower e2"
  shows "ensure_ext b e1 \<noteq> ensure_ext b e2"
proof
  assume eq: "ensure_ext b e1 = ensure_ext b e2"
  have "lower e1 = lower (drop (length (ensure_ext b e1) - length e1) (ensure_ext b e1))"
    by (simp only: ensure_ext_tail)
  also have "\<dots> = lower (drop (length (ensure_ext b e2) - length e2) (ensure_ext b e2))"
    using eq assms(1) by simp
  also have "\<dots> = lower e2"
    by (simp only: ensure_ext_tail)
  finally show False using assms(2) by simp
qed

lemma three_paths_distinct: "distinct [ply_filepath fp, mat_filepath fp, rsd_filepath fp]"
proof -
  have l: "lower ''.ply'' = ''.ply''" "lower ''.mat'' = ''.mat''" "lower ''.rsd'' = ''.rsd''"
    by (simp_all add: lower_def lower_char_def)
  have "ensure_ext (stripped fp) ''.ply'' \<noteq> ensure_ext (stripped fp) ''.mat''"
    by (rule ensure_ext_differ) (simp_all add: l)
  moreover have "ensure_ext (stripped fp) ''.ply'' \<noteq> ensure_ext (stripped fp) ''.rsd''"
    by (rule ensure_ext_differ) (simp_all add: l)
  moreover have "ensure_ext (stripped fp) ''.mat'' \<noteq> ensure_ext (stripped fp) ''.rsd''"
    by (rule ensure_ext_differ) (simp_all add: l)
  ultimately show ?thesis
    by (simp add: ply_filepath_def mat_filepath_def rsd_filepath_def filename_ext_def)
qed




text \<open>
  Claim C9. The extension is removed by dropping every trailing character that is one of
  \<^verbatim>\<open>.\<close>, \<^verbatim>\<open>r\<close>, \<^verbatim>\<open>s\<close>, \<^verbatim>\<open>d\<close>: what is dropped is made of these characters, and what
  is left does not end in one of them. For \<^verbatim>\<open>food.rsd\<close> the base is \<^verbatim>\<open>foo\<close>, where exact
  removal of the suffix \<^verbatim>\<open>.rsd\<close> gives \<^verbatim>\<open>food\<close>, and the three files are named
  \<^verbatim>\<open>foo.rsd\<close>, \<^verbatim>\<open>foo.ply\<close> and \<^verbatim>\<open>foo.mat\<close>.
\<close>

theorem extension_stripped_by_characters:
  "stripped ''food.rsd'' = ''foo''
   \<and> remove_suffix ''food.rsd'' filename_ext = ''food''
   \<and> stripped ''food.rsd'' \<noteq> remove_suffix ''food.rsd'' filename_ext
   \<and> rsd_filepath ''food.rsd'' = ''foo.rsd''
   \<and> ply_filepath ''food.rsd'' = ''foo.ply''
   \<and> mat_filepath ''food.rsd'' = ''foo.mat''
   \<and> stripped s = rev (dropWhile (\<lambda>c. c \<in> {CHR ''.'', CHR ''r'', CHR ''s'', CHR ''d''}) (rev s))
   \<and> (\<exists>t. s = stripped s @ t \<and> set t \<subseteq> {CHR ''.'', CHR ''r'', CHR ''s'', CHR ''d''})
   \<and> (stripped s = [] \<or> last (stripped s) \<notin> {CHR ''.'', CHR ''r'', CHR ''s'', CHR ''d''})"
proof -
  have chars: "set filename_ext = {CHR ''.'', CHR ''r'', CHR ''s'', CHR ''d''}"
    by (simp add: filename_ext_def)
  have ex: "stripped ''food.rsd'' = ''foo''"
    "remove_suffix ''food.rsd'' filename_ext = ''food''"
    "stripped ''food.rsd'' \<noteq> remove_suffix ''food.rsd'' filename_ext"
    "rsd_filepath ''food.rsd'' = ''foo.rsd''"
    "ply_filepath ''food.rsd'' = ''foo.ply''"
    "mat_filepath ''food.rsd'' = ''foo.mat''"
    by code_simp+
  have g1: "stripped s = rev (dropWhile (\<lambda>c. c \<in> {CHR ''.'', CHR ''r'', CHR ''s'', CHR ''d''}) (rev s))"
    unfolding stripped_def rstrip_def chars ..
  have g2: "\<exists>t. s = stripped s @ t \<and> set t \<subseteq> {CHR ''.'', CHR ''r'', CHR ''s'', CHR ''d''}"
    using rstrip_decompose [of s filename_ext] unfolding stripped_def chars .
  have g3: "stripped s = [] \<or> last (stripped s) \<notin> {CHR ''.'', CHR ''r'', CHR ''s'', CHR ''d''}"
    using rstrip_last [of s filename_ext] unfolding stripped_def chars .
  show ?thesis
    by (intro conjI ex g1 g2 g3)
qed

theorem extension_stripped_by_characters_witness:
  "stripped ''/tmp/sword.rsd'' = ''/tmp/swo''
   \<and> (\<exists>t. ''/tmp/sword.rsd'' = stripped ''/tmp/sword.rsd'' @ t
            \<and> set t \<subseteq> {CHR ''.'', CHR ''r'', CHR ''s'', CHR ''d''})"
proof -
  have "rev (dropWhile (\<lambda>c. c \<in> {CHR ''.'', CHR ''r'', CHR ''s'', CHR ''d''}) (rev ''/tmp/sword.rsd''))
          = ''/tmp/swo''"
    by simp
  then show ?thesis
    using extension_stripped_by_characters [of "''/tmp/sword.rsd''"] by simp
qed

text \<open>
  Claim C10. Every export writes the geometry file and the shading file at the paths made
  from the one stripped base path, and, when no exception ended the shading loop, the
  descriptor file at the third such path; the \<^verbatim>\<open>PLY=\<close> and \<^verbatim>\<open>MAT=\<close> lines of the
  descriptor are the base names of the paths of the two files written before it in the
  same run. The three paths are pairwise different, so no file overwrites another.
\<close>

theorem descriptor_names_the_files_written:
  "(\<exists>ply mat.
      files (execute ops self mesh) =
        (ply_filepath (filepath self), ply) # (mat_filepath (filepath self), mat)
          # (if raised (execute ops self mesh) = None
             then [(rsd_filepath (filepath self),
                    ''@RSD940102'' @ nl
                      @ ''PLY='' @ basename (ply_filepath (filepath self)) @ nl
                      @ ''MAT='' @ basename (mat_filepath (filepath self)) @ nl
                      @ ''NTEX=0'' @ nl)]
             else []))
   \<and> ply_filepath (filepath self) = ensure_ext (rstrip (filepath self) ''.rsd'') ''.ply''
   \<and> mat_filepath (filepath self) = ensure_ext (rstrip (filepath self) ''.rsd'') ''.mat''
   \<and> rsd_filepath (filepath self) = ensure_ext (rstrip (filepath self) ''.rsd'') ''.rsd''
   \<and> distinct [ply_filepath (filepath self), mat_filepath (filepath self),
                rsd_filepath (filepath self)]"
proof (intro conjI)
  have "files (execute ops self mesh) =
        (ply_filepath (filepath self), write_ply ops (exp_scaleFactor self) mesh)
          # (mat_filepath (filepath self), fst (write_mat ops (exp_coloredTexPolys self) mesh))
          # (if raised (execute ops self mesh) = None
             then [(rsd_filepath (filepath self),
                    ''@RSD940102'' @ nl
                      @ ''PLY='' @ basename (ply_filepath (filepath self)) @ nl
                      @ ''MAT='' @ basename (mat_filepath (filepath self)) @ nl
                      @ ''NTEX=0'' @ nl)]
             else [])"
    unfolding execute_files [of ops self mesh] write_rsd_def by simp
  then show "\<exists>ply mat.
      files (execute ops self mesh) =
        (ply_filepath (filepath self), ply) # (mat_filepath (filepath self), mat)
          # (if raised (execute ops self mesh) = None
             then [(rsd_filepath (filepath self),
                    ''@RSD940102'' @ nl
                      @ ''PLY='' @ basename (ply_filepath (filepath self)) @ nl
                      @ ''MAT='' @ basename (mat_filepath (filepath self)) @ nl
                      @ ''NTEX=0'' @ nl)]
             else [])"
    by blast
next
  show "ply_filepath (filepath self) = ensure_ext (rstrip (filepath self) ''.rsd'') ''.ply''"
    by (simp add: ply_filepath_def stripped_def filename_ext_def)
next
  show "mat_filepath (filepath self) = ensure_ext (rstrip (filepath self) ''.rsd'') ''.mat''"
    by (simp add: mat_filepath_def stripped_def filename_ext_def)
next
  show "rsd_filepath (filepath self) = ensure_ext (rstrip (filepath self) ''.rsd'') ''.rsd''"
    by (simp add: rsd_filepath_def stripped_def filename_ext_def)
next
  show "distinct [ply_filepath (filepath self), mat_filepath (filepath self),
                rsd_filepath (filepath self)]"
    by (rule three_paths_distinct)
qed

theorem descriptor_names_the_files_written_witness:
  "\<exists>ply mat.
      files (execute int_ops food_export colored_mesh) =
        [(''/tmp/foo.ply'', ply), (''/tmp/foo.mat'', mat),
         (''/tmp/foo.rsd'',
          ''@RSD940102'' @ nl @ ''PLY=foo.ply'' @ nl @ ''MAT=foo.mat'' @ nl @ ''NTEX=0'' @ nl)]"
proof -
  have ev: "raised (execute int_ops food_export colored_mesh) = None"
    "ply_filepath (filepath food_export) = ''/tmp/foo.ply''"
    "mat_filepath (filepath food_export) = ''/tmp/foo.mat''"
    "rsd_filepath (filepath food_export) = ''/tmp/foo.rsd''"
    "basename ''/tmp/foo.ply'' = ''foo.ply''"
    "basename ''/tmp/foo.mat'' = ''foo.mat''"
    by code_simp+
  show ?thesis
    using descriptor_names_the_files_written [of int_ops food_export colored_mesh,
        THEN conjunct1, unfolded ev]
    by simp
qed

end
